theory Spec2Isabelle
  imports Complex_Main "HOL-Library.Sublist" "HOL-Library.Char_ord" "HOL-Library.List_Lexorder"
begin

section \<open>Strings of the source language\<close>

text \<open>
  JavaScript strings are modelled as \<^typ>\<open>string\<close>. Template literals that splice a
  number (\<^verbatim>\<open>`list-${index}`\<close>) need the decimal rendering of a natural number.
\<close>

definition digit :: "nat \<Rightarrow> char" where
  "digit d = char_of (48 + d)"

fun decimal :: "nat \<Rightarrow> string" where
  "decimal n = (if n < 10 then [digit n] else decimal (n div 10) @ [digit (n mod 10)])"

declare decimal.simps [simp del]

section \<open>Blocks\<close>

text \<open>
  Modelled from the spec: the type declarations of \<^verbatim>\<open>types/notion.ts\<close>
  (\<^verbatim>\<open>NotionBlockWithChildren\<close>) are not part of the sources at hand. A block carries
  its \<^verbatim>\<open>id\<close>, its \<^verbatim>\<open>type\<close> discriminant, the \<^verbatim>\<open>has_children\<close> flag, the optional
  \<^verbatim>\<open>children\<close> and a variant-specific payload, which the operations below never inspect
  and which is therefore a type parameter.
\<close>

datatype 'p block =
  Block (bid: string) (btype: string) (has_children: bool)
        (children: "'p block list option") (payload: 'p)

section \<open>The block list grouper (\<^verbatim>\<open>groupBlocks\<close>)\<close>

text \<open>
  The render units that \<^verbatim>\<open>groupBlocks\<close> pushes: the empty-state paragraph, a
  \<^verbatim>\<open><NotionBlock key={block.id} block={block} />\<close> element, and a
  \<^verbatim>\<open><ListTag key=... className="my-4">\<close> container holding the pending list items.
\<close>

datatype list_tag = UL | OL

datatype 'p rnode =
  EmptyNotice
| NotionBlockNode (nkey: string) (nblock: "'p block")
| ListNode (ltag: list_tag) (lkey: string) (litems: "'p rnode list")

record 'p gstate =
  groupedBlocks :: "'p rnode list"
  currentListItems :: "'p rnode list"
  currentListType :: "list_tag option"

text \<open>\<^verbatim>\<open>const ListTag = currentListType === 'ul' ? 'ul' : 'ol'\<close>\<close>

definition listTag :: "list_tag option \<Rightarrow> list_tag" where
  "listTag t = (if t = Some UL then UL else OL)"

definition is_list_item :: "'p block \<Rightarrow> bool" where
  "is_list_item b \<longleftrightarrow> btype b = ''bulleted_list_item'' \<or> btype b = ''numbered_list_item''"

definition newListType :: "'p block \<Rightarrow> list_tag" where
  "newListType b = (if btype b = ''bulleted_list_item'' then UL else OL)"

text \<open>Pushing the pending list as one container, keyed by \<open>k\<close>.\<close>

definition flush :: "string \<Rightarrow> 'p gstate \<Rightarrow> 'p rnode list" where
  "flush k s = groupedBlocks s @ [ListNode (listTag (currentListType s)) k (currentListItems s)]"

text \<open>The body of \<^verbatim>\<open>blocks.forEach((block, index) => ...)\<close>.\<close>

definition group_step :: "nat \<Rightarrow> 'p block \<Rightarrow> 'p gstate \<Rightarrow> 'p gstate" where
  "group_step index b s =
     (if is_list_item b then
        (let s1 =
           (if currentListType s \<noteq> Some (newListType b) then
              (let s0 =
                 (if currentListItems s \<noteq> [] then
                    s\<lparr>groupedBlocks := flush (''list-'' @ decimal index) s,
                      currentListItems := []\<rparr>
                  else s)
               in s0\<lparr>currentListType := Some (newListType b)\<rparr>)
            else s)
         in s1\<lparr>currentListItems := currentListItems s1 @ [NotionBlockNode (bid b) b]\<rparr>)
      else
        (let s1 =
           (if currentListItems s \<noteq> [] then
              s\<lparr>groupedBlocks := flush (''list-'' @ decimal index) s,
                currentListItems := [], currentListType := None\<rparr>
            else s)
         in s1\<lparr>groupedBlocks := groupedBlocks s1 @ [NotionBlockNode (bid b) b]\<rparr>))"

fun group_loop :: "nat \<Rightarrow> 'p block list \<Rightarrow> 'p gstate \<Rightarrow> 'p gstate" where
  "group_loop index [] s = s"
| "group_loop index (b # bs) s = group_loop (Suc index) bs (group_step index b s)"

definition group_init :: "'p gstate" where
  "group_init = \<lparr>groupedBlocks = [], currentListItems = [], currentListType = None\<rparr>"

text \<open>
  The source also takes the first branch when \<^verbatim>\<open>blocks\<close> is absent
  (\<^verbatim>\<open>!blocks\<close>); an absent argument behaves as the empty list.
\<close>

definition groupBlocks :: "'p block list \<Rightarrow> 'p rnode list" where
  "groupBlocks blocks =
     (if blocks = [] then [EmptyNotice]
      else
        (let s = group_loop 0 blocks group_init
         in if currentListItems s \<noteq> [] then flush ''list-last'' s else groupedBlocks s))"

subsection \<open>Observations on render units\<close>






subsection \<open>Invariant of the grouping loop\<close>




section \<open>Thrown values\<close>

text \<open>
  A thrown JavaScript value: an \<^verbatim>\<open>Error\<close> built by the program with a message, or a
  \<^verbatim>\<open>TypeError\<close> raised by the runtime (a property read on \<^verbatim>\<open>undefined\<close>, a call of
  something that is not a function) or a \<^verbatim>\<open>RangeError\<close> (an invalid date). All are
  instances of \<^verbatim>\<open>Error\<close> and carry a message.
\<close>

datatype error = Error string | TypeError string | RangeError string

fun message :: "error \<Rightarrow> string" where
  "message (Error m) = m"
| "message (TypeError m) = m"
| "message (RangeError m) = m"

section \<open>String operations\<close>

text \<open>\<^verbatim>\<open>s.includes(sub)\<close>: \<open>sub\<close> occurs in \<open>s\<close> as a contiguous substring.\<close>

fun js_includes :: "string \<Rightarrow> string \<Rightarrow> bool" where
  "js_includes [] sub = (sub = [])"
| "js_includes (c # cs) sub = (prefix sub (c # cs) \<or> js_includes cs sub)"

text \<open>\<^verbatim>\<open>s.replace(pat, rep)\<close> with a string pattern: the first occurrence only.\<close>

fun replace_first :: "string \<Rightarrow> string \<Rightarrow> string \<Rightarrow> string" where
  "replace_first [] pat rep = (if pat = [] then rep else [])"
| "replace_first (c # cs) pat rep =
     (if prefix pat (c # cs) then rep @ drop (length pat) (c # cs)
      else c # replace_first cs pat rep)"

text \<open>\<^verbatim>\<open>xs.join(sep)\<close>\<close>

fun join :: "string \<Rightarrow> string list \<Rightarrow> string" where
  "join sep [] = []"
| "join sep [x] = x"
| "join sep (x # y # ys) = x @ sep @ join sep (y # ys)"

section \<open>Rich text\<close>

text \<open>
  Modelled from the spec: \<^verbatim>\<open>RichTextItem\<close> is declared in \<^verbatim>\<open>types/notion.ts\<close>, which
  is not part of the sources at hand. A span has a \<^verbatim>\<open>type\<close>, its \<^verbatim>\<open>plain_text\<close>, an
  \<^verbatim>\<open>href\<close> that is a string or \<^verbatim>\<open>null\<close>, and \<^verbatim>\<open>annotations\<close> with the five style
  flags and a colour. The renderer runs on values that were cast to this type, so the
  annotation object may be absent and each of its fields may be absent or hold a value
  of another type; the fields are therefore untyped JavaScript values.
\<close>

datatype jsval = JUndefined | JNull | JBool bool | JNum int | JStr string

text \<open>The truthiness test of \<^verbatim>\<open>if (v)\<close>.\<close>

fun truthy :: "jsval \<Rightarrow> bool" where
  "truthy JUndefined = False"
| "truthy JNull = False"
| "truthy (JBool b) = b"
| "truthy (JNum n) = (n \<noteq> 0)"
| "truthy (JStr s) = (s \<noteq> [])"

record annotations =
  bold :: jsval
  italic :: jsval
  strikethrough :: jsval
  underline :: jsval
  code :: jsval
  color :: jsval

record RichTextItem =
  rtype :: string
  plain_text :: string
  href :: "string option"
  annotations :: "annotations option"

text \<open>\<^verbatim>\<open>if (href)\<close>: neither \<^verbatim>\<open>null\<close> nor the empty string.\<close>

fun href_truthy :: "string option \<Rightarrow> bool" where
  "href_truthy None = False"
| "href_truthy (Some h) = (h \<noteq> [])"

text \<open>
  React elements: text, a fragment, or an element with a tag, its props (the \<^verbatim>\<open>key\<close>
  is listed with them) and its children.
\<close>

datatype node = Text string | Fragment "node list" | Elem string "(string \<times> string) list" "node list"

subsection \<open>\<^verbatim>\<open>getStyleClasses\<close>\<close>

text \<open>
  Reading \<^verbatim>\<open>annotations.color\<close> throws when \<^verbatim>\<open>annotations\<close> is absent, and
  \<^verbatim>\<open>annotations.color.includes(...)\<close> throws when the colour is truthy but not a string.
\<close>

definition color_classes :: "jsval \<Rightarrow> error + string list" where
  "color_classes c =
     (if truthy c \<and> c \<noteq> JStr ''default'' then
        (case c of
           JStr s \<Rightarrow>
             (if js_includes s ''_background'' then
                (let bgColor = replace_first s ''_background'' ''''
                 in Inr [''bg-'' @ bgColor @ ''-100 text-'' @ bgColor @ ''-800 px-1 rounded''])
              else Inr [''text-'' @ s @ ''-500''])
         | _ \<Rightarrow> Inl (TypeError ''annotations.color.includes is not a function''))
      else Inr [])"

definition getStyleClasses :: "annotations option \<Rightarrow> string \<Rightarrow> error + string" where
  "getStyleClasses anns type =
     (case anns of
        None \<Rightarrow> Inl (TypeError ''Cannot read properties of undefined (reading color)'')
      | Some a \<Rightarrow>
          (case color_classes (color a) of
             Inl e \<Rightarrow> Inl e
           | Inr classes \<Rightarrow>
               Inr (join '' ''
                 (classes @
                  (if type = ''code'' then [''bg-gray-100 p-1 rounded font-mono text-sm'']
                   else [])))))"

subsection \<open>\<^verbatim>\<open>RichText\<close>\<close>

text \<open>Wrapping \<open>content\<close> in an element when the flag is truthy.\<close>

definition wrap_if :: "jsval \<Rightarrow> string \<Rightarrow> (string \<times> string) list \<Rightarrow> node \<Rightarrow> node" where
  "wrap_if flag tag props content = (if truthy flag then Elem tag props [content] else content)"

text \<open>
  The callback of \<^verbatim>\<open>richText.map((text, index) => ...)\<close>. Destructuring
  \<^verbatim>\<open>const { bold, ... } = annotations\<close> throws when \<^verbatim>\<open>annotations\<close> is absent.
\<close>

definition render_span :: "nat \<Rightarrow> RichTextItem \<Rightarrow> error + node" where
  "render_span index text =
     (case annotations text of
        None \<Rightarrow> Inl (TypeError ''Cannot destructure property bold of annotations'')
      | Some a \<Rightarrow>
          (case getStyleClasses (Some a) (rtype text) of
             Inl e \<Rightarrow> Inl e
           | Inr styleClass \<Rightarrow>
               (let content0 = Fragment [Text (plain_text text)];
                    content1 = wrap_if (code a) ''code''
                      [(''key'', ''code-'' @ decimal index),
                       (''className'', ''font-mono text-sm bg-gray-100 p-1 rounded'')] content0;
                    content2 = wrap_if (bold a) ''strong''
                      [(''key'', ''bold-'' @ decimal index)] content1;
                    content3 = wrap_if (italic a) ''em''
                      [(''key'', ''italic-'' @ decimal index)] content2;
                    content4 = wrap_if (strikethrough a) ''del''
                      [(''key'', ''del-'' @ decimal index)] content3;
                    content = wrap_if (underline a) ''u''
                      [(''key'', ''underline-'' @ decimal index)] content4
                in
                  (if href_truthy (href text) then
                     Inr (Elem ''a''
                       [(''key'', decimal index),
                        (''href'', the (href text)),
                        (''className'', ''text-blue-500 hover:underline '' @ styleClass),
                        (''target'', ''_blank''),
                        (''rel'', ''noopener noreferrer'')]
                       [content])
                   else
                     Inr (Elem ''span''
                       ((''key'', decimal index) #
                        (if styleClass \<noteq> [] then [(''className'', styleClass)] else []))
                       [content])))))"

text \<open>The \<^verbatim>\<open>map\<close> stops at the first span whose callback throws.\<close>

fun render_spans :: "nat \<Rightarrow> RichTextItem list \<Rightarrow> error + node list" where
  "render_spans index [] = Inr []"
| "render_spans index (t # ts) =
     (case render_span index t of
        Inl e \<Rightarrow> Inl e
      | Inr n \<Rightarrow>
          (case render_spans (Suc index) ts of
             Inl e \<Rightarrow> Inl e
           | Inr ns \<Rightarrow> Inr (n # ns)))"

text \<open>The component: \<^verbatim>\<open>null\<close> for an absent or empty input, a fragment otherwise.\<close>

definition RichText :: "RichTextItem list option \<Rightarrow> error + node option" where
  "RichText richText =
     (case richText of
        None \<Rightarrow> Inr None
      | Some items \<Rightarrow>
          (if items = [] then Inr None
           else (case render_spans 0 items of
                   Inl e \<Rightarrow> Inl e
                 | Inr ns \<Rightarrow> Inr (Some (Fragment ns)))))"

subsection \<open>Observations on rendered spans\<close>

text \<open>The tags along the chain of only children, outermost first, and what lies inside.\<close>

fun spine :: "node \<Rightarrow> string list" where
  "spine (Elem tag props [c]) = tag # spine c"
| "spine _ = []"



text \<open>The style wrappers a span asks for, outermost first.\<close>

definition style_tags :: "annotations \<Rightarrow> string list" where
  "style_tags a =
     (if truthy (underline a) then [''u''] else []) @
     (if truthy (strikethrough a) then [''del''] else []) @
     (if truthy (italic a) then [''em''] else []) @
     (if truthy (bold a) then [''strong''] else []) @
     (if truthy (code a) then [''code''] else [])"

text \<open>The colour does not make \<^verbatim>\<open>getStyleClasses\<close> throw: it is falsy or a string.\<close>

fun is_string :: "jsval \<Rightarrow> bool" where
  "is_string (JStr s) = True"
| "is_string _ = False"

definition color_ok :: "jsval \<Rightarrow> bool" where
  "color_ok c \<longleftrightarrow> \<not> truthy c \<or> is_string c"

text \<open>A span the renderer accepts: the annotation object is there and its colour is usable.\<close>

definition span_ok :: "RichTextItem \<Rightarrow> bool" where
  "span_ok t = (case annotations t of None \<Rightarrow> False | Some a \<Rightarrow> color_ok (color a))"

text \<open>The outermost tag of a rendered span and the whole chain expected for it.\<close>

definition outer_tag :: "RichTextItem \<Rightarrow> string" where
  "outer_tag t = (if href_truthy (href t) then ''a'' else ''span'')"

definition expected_spine :: "RichTextItem \<Rightarrow> string list" where
  "expected_spine t =
     outer_tag t # (case annotations t of None \<Rightarrow> [] | Some a \<Rightarrow> style_tags a)"

text \<open>Well-typed annotations without any style, and the empty object \<^verbatim>\<open>{}\<close>.\<close>

definition unstyled :: annotations where
  "unstyled = \<lparr>bold = JBool False, italic = JBool False, strikethrough = JBool False,
     underline = JBool False, code = JBool False, color = JStr ''default''\<rparr>"

definition empty_annotations :: annotations where
  "empty_annotations = \<lparr>bold = JUndefined, italic = JUndefined, strikethrough = JUndefined,
     underline = JUndefined, code = JUndefined, color = JUndefined\<rparr>"

section \<open>The content cache\<close>

text \<open>
  Modelled from the spec: \<^verbatim>\<open>CacheConfig\<close> is declared in \<^verbatim>\<open>types/notion.ts\<close>, which is
  not part of the sources at hand; it has a \<^verbatim>\<open>ttl\<close> and an optional
  \<^verbatim>\<open>refreshThreshold\<close>. Instants and durations are JavaScript numbers (milliseconds);
  they are modelled as exact rationals.
\<close>

record CacheConfig =
  ttl :: rat
  refreshThreshold :: "rat option"

definition DEFAULT_CACHE_CONFIG :: CacheConfig where
  "DEFAULT_CACHE_CONFIG = \<lparr>ttl = 5 * 60 * 1000, refreshThreshold = Some (4 / 5)\<rparr>"

record 'v CacheItem =
  data :: 'v
  timestamp :: rat
  expiresAt :: rat

text \<open>
  A refresh that was started without being awaited: the key it will write, how its
  fetch settles (\<open>None\<close> when it never does) and the lifetime of the entry it stores.
\<close>

record 'v refresh =
  rkey :: string
  routcome :: "(error + 'v) option"
  rttl :: rat

text \<open>
  The state the module works on: the module-level \<^verbatim>\<open>cache\<close> object, the clock read by
  \<^verbatim>\<open>Date.now()\<close>, the requests sent to the remote API so far, and the detached
  refreshes that have not settled yet. The clock does not advance while one operation
  runs; whoever sequences operations sets it in between.
\<close>

record ('v, 'q) state =
  cache :: "string \<rightharpoonup> 'v CacheItem"
  clock :: rat
  requests :: "'q list"
  background :: "'v refresh list"

text \<open>
  An asynchronous function: run on a state, it settles with a thrown value or a result
  and leaves a new state, or never settles (\<open>None\<close>).
\<close>

type_synonym ('v, 'q) async = "('v, 'q) state \<Rightarrow> ((error + 'v) \<times> ('v, 'q) state) option"

text \<open>\<^verbatim>\<open>config.refreshThreshold || 0.8\<close>: an absent or zero threshold counts as 0.8.\<close>

definition threshold :: "CacheConfig \<Rightarrow> rat" where
  "threshold config =
     (case refreshThreshold config of
        None \<Rightarrow> 4 / 5
      | Some r \<Rightarrow> if r = 0 then 4 / 5 else r)"

text \<open>
  \<^verbatim>\<open>fetchFn().then(...).catch(...)\<close> without \<^verbatim>\<open>await\<close>: the fetch starts at once, so
  what it does to the state is there when the lookup returns; its settlement is queued.
  A fetch that never settles leaves the queue entry open for ever.
\<close>

definition spawn_refresh ::
  "string \<Rightarrow> CacheConfig \<Rightarrow> ((error + 'v) \<times> ('v, 'q) state) option \<Rightarrow> ('v, 'q) state
     \<Rightarrow> ('v, 'q) state" where
  "spawn_refresh key config outcome s =
     (case outcome of
        None \<Rightarrow>
          s\<lparr>background := background s @ [\<lparr>rkey = key, routcome = None, rttl = ttl config\<rparr>]\<rparr>
      | Some (r, s1) \<Rightarrow>
          s1\<lparr>background := background s1 @ [\<lparr>rkey = key, routcome = Some r, rttl = ttl config\<rparr>]\<rparr>)"

text \<open>
  The callbacks of a detached refresh, run when its fetch has settled: on success the
  entry is replaced, stamped with the clock of that moment; on failure only a warning is
  logged.
\<close>

definition settle_refresh :: "'v refresh \<Rightarrow> ('v, 'q) state \<Rightarrow> ('v, 'q) state" where
  "settle_refresh r s =
     (case routcome r of
        Some (Inr d) \<Rightarrow>
          s\<lparr>cache := (cache s)(rkey r \<mapsto>
               \<lparr>data = d, timestamp = clock s, expiresAt = clock s + rttl r\<rparr>)\<rparr>
      | _ \<Rightarrow> s)"

subsection \<open>\<^verbatim>\<open>getFromCacheOrFetch\<close>\<close>

definition getFromCacheOrFetch ::
  "string \<Rightarrow> ('v, 'q) async \<Rightarrow> CacheConfig \<Rightarrow> ('v, 'q) async" where
  "getFromCacheOrFetch key fetchFn config s =
     (let now = clock s; cachedItem = cache s key in
      (case cachedItem of
         Some item \<Rightarrow>
           if now < expiresAt item then
             (if now > timestamp item + ttl config * threshold config then
                Some (Inr (data item), spawn_refresh key config (fetchFn s) s)
              else Some (Inr (data item), s))
           else
             (case fetchFn s of
                None \<Rightarrow> None
              | Some (Inr d, s1) \<Rightarrow>
                  Some (Inr d,
                    s1\<lparr>cache := (cache s1)(key \<mapsto>
                         \<lparr>data = d, timestamp = now, expiresAt = now + ttl config\<rparr>)\<rparr>)
              | Some (Inl err, s1) \<Rightarrow> Some (Inr (data item), s1))
       | None \<Rightarrow>
           (case fetchFn s of
              None \<Rightarrow> None
            | Some (Inr d, s1) \<Rightarrow>
                Some (Inr d,
                  s1\<lparr>cache := (cache s1)(key \<mapsto>
                       \<lparr>data = d, timestamp = now, expiresAt = now + ttl config\<rparr>)\<rparr>)
            | Some (Inl err, s1) \<Rightarrow> Some (Inl err, s1))))"

subsection \<open>\<^verbatim>\<open>clearCache\<close>\<close>

text \<open>
  \<^verbatim>\<open>if (keyPrefix)\<close> is false for an absent and for an empty prefix: both clear every
  entry. Otherwise the keys that start with the prefix are deleted.
\<close>

definition clearCache :: "string option \<Rightarrow> ('v, 'q) state \<Rightarrow> ('v, 'q) state" where
  "clearCache keyPrefix s =
     (case keyPrefix of
        None \<Rightarrow> s\<lparr>cache := Map.empty\<rparr>
      | Some p \<Rightarrow>
          if p = [] then s\<lparr>cache := Map.empty\<rparr>
          else s\<lparr>cache := (\<lambda>key. if prefix p key then None else cache s key)\<rparr>)"

subsection \<open>A small cache for examples\<close>





section \<open>The content client: data\<close>

subsection \<open>More string operations\<close>

text \<open>
  \<^verbatim>\<open>toLowerCase\<close>, \<^verbatim>\<open>trim\<close> and \<^verbatim>\<open>split\<close> on the characters a \<^typ>\<open>string\<close> can hold:
  the letters \<open>A\<close> to \<open>Z\<close> are lowered, and white space is the ASCII white space.
\<close>

definition to_lower_char :: "char \<Rightarrow> char" where
  "to_lower_char c =
     (let n = (of_char c :: nat) in if 65 \<le> n \<and> n \<le> 90 then char_of (n + 32) else c)"

definition toLowerCase :: "string \<Rightarrow> string" where
  "toLowerCase s = map to_lower_char s"

definition is_space :: "char \<Rightarrow> bool" where
  "is_space c \<longleftrightarrow> (of_char c :: nat) \<in> {9, 10, 11, 12, 13, 32}"

definition trim :: "string \<Rightarrow> string" where
  "trim s = rev (dropWhile is_space (rev (dropWhile is_space s)))"

fun split_on :: "char \<Rightarrow> string \<Rightarrow> string list" where
  "split_on sep [] = [[]]"
| "split_on sep (c # cs) =
     (if c = sep then [] # split_on sep cs
      else (case split_on sep cs of
              [] \<Rightarrow> [[c]]
            | w # ws \<Rightarrow> (c # w) # ws))"

text \<open>\<^verbatim>\<open>a || b\<close> on strings: an absent or empty \<open>a\<close> gives \<open>b\<close>.\<close>

fun str_truthy :: "string option \<Rightarrow> bool" where
  "str_truthy None = False"
| "str_truthy (Some x) = (x \<noteq> [])"

definition or_else :: "string option \<Rightarrow> string option \<Rightarrow> string option" where
  "or_else a b = (if str_truthy a then a else b)"

definition or_str :: "string option \<Rightarrow> string \<Rightarrow> string" where
  "or_str a b = (if str_truthy a then the a else b)"

text \<open>A value spliced into a template literal: \<^verbatim>\<open>undefined\<close> prints as such.\<close>

fun show_opt :: "string option \<Rightarrow> string" where
  "show_opt None = ''undefined''"
| "show_opt (Some x) = x"

fun show_bool :: "bool \<Rightarrow> string" where
  "show_bool True = ''true''"
| "show_bool False = ''false''"

subsection \<open>Pages as the API delivers them\<close>

text \<open>
  Modelled from the spec: \<^verbatim>\<open>PageResponse\<close>, \<^verbatim>\<open>PageData\<close>, \<^verbatim>\<open>FormattedPage\<close> and
  \<^verbatim>\<open>DatabaseQueryResponse\<close> are declared in \<^verbatim>\<open>types/notion.ts\<close>, which is not part of
  the sources at hand. The records hold what \<^verbatim>\<open>formatPage\<close> reads: for a text property
  the \<^verbatim>\<open>plain_text\<close> of its first span, for a select its \<^verbatim>\<open>name\<close>, each absent when any
  step of the optional chain is.
\<close>

record tag =
  tag_name :: string
  tag_color :: string

record file_ref =
  file_type :: "string option"
  file_url :: "string option"
  external_url :: "string option"

record cover_ref =
  cover_type :: string
  cover_external_url :: "string option"
  cover_file_url :: "string option"

record person =
  person_name :: "string option"
  avatar_url :: "string option"

record PageData =
  title_text :: "string option"
  slug_text :: "string option"
  thumbnail_files :: "file_ref list"
  date_start :: "string option"
  updatedAt_time :: "string option"
  tags_multi_select :: "tag list option"
  author_people :: "person list"
  category_name :: "string option"
  status_name :: "string option"
  summary_text :: "string option"
  keywords_text :: "string option"

record PageResponse =
  page_id :: string
  properties :: PageData
  cover :: "cover_ref option"
  created_time :: "string option"
  last_edited_time :: "string option"

record thumbnail =
  thumb_type :: string
  thumb_url :: string

record 'p FormattedPage =
  fp_id :: string
  title :: string
  summary :: string
  slug :: string
  author :: "person option"
  page_keywords :: "string list"
  category :: "string option"
  tags :: "tag list"
  blocks :: "'p block list"
  thumbnail :: "thumbnail option"
  date :: string
  updatedAt :: string
  status :: "string option"

subsection \<open>The remote API and the environment\<close>

record 'p list_response =
  results :: "'p block list"
  has_more :: bool
  next_cursor :: "string option"

datatype db_filter =
  SelectEquals string string
| RichTextEquals string string
| MultiSelectContains string string

record db_query =
  database_id :: string
  q_sorts :: "(string \<times> string) list option"
  q_filter :: "db_filter option"

datatype request =
  Retrieve string
| ListChildren string "string option" nat
| Query db_query

text \<open>
  What the module finds around it: the three operations of the \<^verbatim>\<open>notion\<close> client, each
  settling with a thrown value or a response; \<^verbatim>\<open>process.env.NOTION_DATABASE_ID\<close> as read
  at call time and the module constant \<^verbatim>\<open>NOTION_DATABASE_ID\<close> read at load time;
  \<^verbatim>\<open>new Date(s).toISOString()\<close>, which throws a \<^verbatim>\<open>RangeError\<close> for a string that is not a
  date (\<open>None\<close>), and \<^verbatim>\<open>new Date().toISOString()\<close> for the current instant.
\<close>

record 'p world =
  pages_retrieve :: "string \<Rightarrow> error + PageResponse"
  blocks_children_list :: "string \<Rightarrow> string option \<Rightarrow> nat \<Rightarrow> error + 'p list_response"
  databases_query :: "db_query \<Rightarrow> error + PageResponse list"
  env_NOTION_DATABASE_ID :: "string option"
  NOTION_DATABASE_ID :: "string option"
  date_to_iso :: "string \<Rightarrow> string option"
  now_iso :: "rat \<Rightarrow> string"

text \<open>
  What a cache entry of the client can hold: the module stores values of several types in
  the one \<^verbatim>\<open>cache\<close> object and casts on the way out.
\<close>

datatype 'p cached =
  CPage PageResponse
| CBlocks "'p block list"
| CFormatted "'p FormattedPage"
| CPages "'p FormattedPage list"
| CNull
| CStrings "string list"

type_synonym 'p cstate = "('p cached, request) state"
type_synonym 'p casync = "('p cached, request) async"

text \<open>
  The message literals of the source are Japanese; each is rendered here by an English
  text of the same meaning. None of them contains a status code.
\<close>

definition MSG_UNKNOWN :: string where
  "MSG_UNKNOWN = ''unknown error''"

definition MSG_DATABASE_ID_UNSET :: string where
  "MSG_DATABASE_ID_UNSET = ''NOTION_DATABASE_ID is not set''"

definition MSG_INVALID_TIME :: string where
  "MSG_INVALID_TIME = ''Invalid time value''"

definition MSG_CAST :: string where
  "MSG_CAST = ''cached value has another shape''"

section \<open>The content client: operations\<close>

subsection \<open>Sequencing asynchronous steps\<close>

text \<open>\<^verbatim>\<open>await\<close>: go on with the result, pass a thrown value on, wait for ever.\<close>

definition await ::
  "((error + 'a) \<times> 's) option \<Rightarrow> ('a \<Rightarrow> 's \<Rightarrow> ((error + 'b) \<times> 's) option)
     \<Rightarrow> ((error + 'b) \<times> 's) option" where
  "await m f =
     (case m of
        None \<Rightarrow> None
      | Some (Inl e, s) \<Rightarrow> Some (Inl e, s)
      | Some (Inr a, s) \<Rightarrow> f a s)"

text \<open>
  \<^verbatim>\<open>try { ... } catch (error) { ...; throw new Error(msg) }\<close> where the message is made
  from \<^verbatim>\<open>error.message\<close>: every value thrown in this model is an instance of
  \<^verbatim>\<open>Error\<close>, so the branch for other values is never taken.
\<close>

definition rethrow ::
  "(string \<Rightarrow> string) \<Rightarrow> ((error + 'a) \<times> 's) option \<Rightarrow> ((error + 'a) \<times> 's) option" where
  "rethrow detail m =
     (case m of
        None \<Rightarrow> None
      | Some (Inl e, s) \<Rightarrow> Some (Inl (Error (detail (message e))), s)
      | Some (Inr a, s) \<Rightarrow> Some (Inr a, s))"

text \<open>Sending a request to the remote API leaves a trace.\<close>

definition sent :: "'q \<Rightarrow> ('v, 'q) state \<Rightarrow> ('v, 'q) state" where
  "sent q s = s\<lparr>requests := requests s @ [q]\<rparr>"

text \<open>
  Reading a cached value at the type the caller expects. The keys of different
  operations never coincide, so a value of another shape cannot turn up; the model
  raises a \<^verbatim>\<open>TypeError\<close> there.
\<close>

fun as_page :: "'p cached \<Rightarrow> error + PageResponse" where
  "as_page (CPage p) = Inr p"
| "as_page _ = Inl (TypeError MSG_CAST)"

fun as_blocks :: "'p cached \<Rightarrow> error + 'p block list" where
  "as_blocks (CBlocks bs) = Inr bs"
| "as_blocks _ = Inl (TypeError MSG_CAST)"

fun as_pages :: "'p cached \<Rightarrow> error + 'p FormattedPage list" where
  "as_pages (CPages ps) = Inr ps"
| "as_pages _ = Inl (TypeError MSG_CAST)"

definition cast :: "('v \<Rightarrow> error + 'a) \<Rightarrow> ((error + 'v) \<times> 's) option \<Rightarrow> ((error + 'a) \<times> 's) option"
  where
  "cast as m =
     (case m of
        None \<Rightarrow> None
      | Some (Inl e, s) \<Rightarrow> Some (Inl e, s)
      | Some (Inr v, s) \<Rightarrow> Some (as v, s))"

subsection \<open>\<^verbatim>\<open>formatPage\<close> and \<^verbatim>\<open>formatPages\<close>\<close>

definition MSG_UNTITLED :: string where
  "MSG_UNTITLED = ''untitled''"

definition formatPage ::
  "'p world \<Rightarrow> rat \<Rightarrow> PageResponse \<Rightarrow> 'p block list option \<Rightarrow> error + 'p FormattedPage" where
  "formatPage w now page blocksArg =
     (let props = properties page;
          title0 = or_str (title_text props) MSG_UNTITLED;
          slug0 = or_str (slug_text props) (page_id page);
          thumbnail0 =
            (case thumbnail_files props of
               thumb # _ \<Rightarrow>
                 Some \<lparr>thumb_type = or_str (file_type thumb) ''external'',
                       thumb_url = or_str (or_else (file_url thumb) (external_url thumb)) ''''\<rparr>
             | [] \<Rightarrow>
                 (case cover page of
                    Some c \<Rightarrow>
                      Some \<lparr>thumb_type = cover_type c,
                            thumb_url =
                              (if cover_type c = ''external''
                               then or_str (cover_external_url c) ''''
                               else or_str (cover_file_url c) '''')\<rparr>
                  | None \<Rightarrow> None));
          dateStr = or_str (or_else (date_start props) (created_time page)) (now_iso w now);
          updatedAtStr =
            or_str (or_else (updatedAt_time props) (last_edited_time page)) dateStr;
          tags0 =
            (case tags_multi_select props of
               Some ts \<Rightarrow> map (\<lambda>t. \<lparr>tag_name = tag_name t, tag_color = tag_color t\<rparr>) ts
             | None \<Rightarrow> []);
          author0 =
            (case author_people props of
               personData # _ \<Rightarrow>
                 Some \<lparr>person_name = person_name personData, avatar_url = avatar_url personData\<rparr>
             | [] \<Rightarrow> None);
          category0 = category_name props;
          status0 = status_name props;
          summary0 = or_str (summary_text props) '''';
          keywords0 =
            (if str_truthy (keywords_text props)
             then map trim (split_on (CHR '','') (the (keywords_text props)))
             else [])
      in
        (case date_to_iso w dateStr of
           None \<Rightarrow> Inl (RangeError MSG_INVALID_TIME)
         | Some date0 \<Rightarrow>
             (case date_to_iso w updatedAtStr of
                None \<Rightarrow> Inl (RangeError MSG_INVALID_TIME)
              | Some updatedAt0 \<Rightarrow>
                  Inr \<lparr>fp_id = page_id page, title = title0, summary = summary0, slug = slug0,
                       author = author0, page_keywords = keywords0, category = category0,
                       tags = tags0,
                       blocks = (case blocksArg of Some bs \<Rightarrow> bs | None \<Rightarrow> []),
                       thumbnail = thumbnail0, date = date0, updatedAt = updatedAt0,
                       status = status0\<rparr>)))"

text \<open>\<^verbatim>\<open>pages.map((page) => formatPage(page))\<close>, stopping at the first page that throws.\<close>

fun formatPages :: "'p world \<Rightarrow> rat \<Rightarrow> PageResponse list \<Rightarrow> error + 'p FormattedPage list" where
  "formatPages w now [] = Inr []"
| "formatPages w now (page # pages) =
     (case formatPage w now page None of
        Inl e \<Rightarrow> Inl e
      | Inr fp \<Rightarrow>
          (case formatPages w now pages of
             Inl e \<Rightarrow> Inl e
           | Inr fps \<Rightarrow> Inr (fp # fps)))"

subsection \<open>\<^verbatim>\<open>getPage\<close>\<close>

definition page_error_message :: "string \<Rightarrow> string \<Rightarrow> string" where
  "page_error_message pageId errorMsg =
     (if js_includes errorMsg ''404'' then ''Page not found (ID: '' @ pageId @ '')''
      else if js_includes errorMsg ''401'' \<or> js_includes errorMsg ''403'' then
        ''No permission to access the page (ID: '' @ pageId @ ''). Check the API key.''
      else if js_includes errorMsg ''429'' then ''API rate limit reached. Retry later.''
      else ''Failed to fetch the page: '' @ errorMsg)"

definition getPage :: "'p world \<Rightarrow> string \<Rightarrow> 'p casync" where
  "getPage w pageId =
     getFromCacheOrFetch (''page:'' @ pageId)
       (\<lambda>s. rethrow (page_error_message pageId)
          (case pages_retrieve w pageId of
             Inl e \<Rightarrow> Some (Inl e, sent (Retrieve pageId) s)
           | Inr response \<Rightarrow> Some (Inr (CPage response), sent (Retrieve pageId) s)))
       DEFAULT_CACHE_CONFIG"

subsection \<open>\<^verbatim>\<open>getBlocks\<close>\<close>

text \<open>\<^verbatim>\<open>cursor = response.next_cursor || undefined\<close>\<close>

definition norm_cursor :: "string option \<Rightarrow> string option" where
  "norm_cursor c = (if str_truthy c then c else None)"

text \<open>
  The \<^verbatim>\<open>while (hasMore)\<close> loop: one request of \<^verbatim>\<open>page_size: 100\<close> per round, with
  \<^verbatim>\<open>start_cursor\<close> only when a cursor is there. A source that never reports the last page
  keeps the loop running for ever.
\<close>

partial_function (option) list_all_children ::
  "'p world \<Rightarrow> string \<Rightarrow> string option \<Rightarrow> 'p block list \<Rightarrow> 'p cstate
     \<Rightarrow> ((error + 'p block list) \<times> 'p cstate) option" where
  "list_all_children w blockId cursor allBlocks s =
     (case blocks_children_list w blockId cursor 100 of
        Inl e \<Rightarrow> Some (Inl e, sent (ListChildren blockId cursor 100) s)
      | Inr response \<Rightarrow>
          (if has_more response then
             list_all_children w blockId (norm_cursor (next_cursor response))
               (allBlocks @ results response) (sent (ListChildren blockId cursor 100) s)
           else
             Some (Inr (allBlocks @ results response),
                   sent (ListChildren blockId cursor 100) s)))"

definition set_children :: "'p block \<Rightarrow> 'p block list \<Rightarrow> 'p block" where
  "set_children b cs = Block (bid b) (btype b) (has_children b) (Some cs) (payload b)"

text \<open>
  \<^verbatim>\<open>Promise.all(blocksWithChildren.map(async (block) => { block.children = await
  getBlocks(block.id) }))\<close>. The source starts all child fetches together; the model runs
  them one after the other in list order and stops at the first that throws.
\<close>

fun resolve_children ::
  "(string \<Rightarrow> 'p casync) \<Rightarrow> 'p block list \<Rightarrow> 'p cstate
     \<Rightarrow> ((error + 'p block list) \<times> 'p cstate) option" where
  "resolve_children get [] s = Some (Inr [], s)"
| "resolve_children get (b # bs) s =
     (if has_children b then
        await (cast as_blocks (get (bid b) s))
          (\<lambda>cs s1. await (resolve_children get bs s1)
             (\<lambda>bs' s2. Some (Inr (set_children b cs # bs'), s2)))
      else
        await (resolve_children get bs s) (\<lambda>bs' s1. Some (Inr (b # bs'), s1)))"

definition blocks_error_message :: "string \<Rightarrow> string \<Rightarrow> string" where
  "blocks_error_message blockId errorMsg =
     (if js_includes errorMsg ''404'' then ''Block not found (ID: '' @ blockId @ '')''
      else if js_includes errorMsg ''401'' \<or> js_includes errorMsg ''403'' then
        ''No permission to access the block (ID: '' @ blockId @ '')''
      else if js_includes errorMsg ''429'' then ''API rate limit reached. Retry later.''
      else ''Failed to fetch the blocks: '' @ errorMsg)"

text \<open>
  The function passed to the cache by \<^verbatim>\<open>getBlocks\<close>, with the recursive call for the
  children as a parameter.
\<close>

definition blocks_fetch :: "(string \<Rightarrow> 'p casync) \<Rightarrow> 'p world \<Rightarrow> string \<Rightarrow> 'p casync" where
  "blocks_fetch get w blockId s =
     rethrow (blocks_error_message blockId)
       (await (list_all_children w blockId None [] s)
          (\<lambda>allBlocks s1. await (resolve_children get allBlocks s1)
             (\<lambda>bs s2. Some (Inr (CBlocks bs), s2))))"

text \<open>
  \<^verbatim>\<open>getBlocks\<close> calls itself for the children of every block. The first argument bounds
  the depth of these calls; a call that needs more depth than given does not return.
\<close>

primrec getBlocks :: "nat \<Rightarrow> 'p world \<Rightarrow> string \<Rightarrow> 'p casync" where
  "getBlocks 0 w blockId = (\<lambda>s. None)"
| "getBlocks (Suc depth) w blockId =
     getFromCacheOrFetch (''blocks:'' @ blockId)
       (blocks_fetch (getBlocks depth w) w blockId) DEFAULT_CACHE_CONFIG"

subsection \<open>\<^verbatim>\<open>getFormattedPage\<close>\<close>

definition getFormattedPage :: "nat \<Rightarrow> 'p world \<Rightarrow> string \<Rightarrow> bool \<Rightarrow> 'p casync" where
  "getFormattedPage depth w pageId fetchBlocks =
     getFromCacheOrFetch (''formatted-page:'' @ pageId @ '':'' @ show_bool fetchBlocks)
       (\<lambda>s. rethrow (\<lambda>errorMsg. ''Failed to format the page: '' @ errorMsg)
          (await (cast as_page (getPage w pageId s))
             (\<lambda>page s1.
                await (if fetchBlocks then cast as_blocks (getBlocks depth w pageId s1)
                       else Some (Inr [], s1))
                  (\<lambda>bs s2.
                     (case formatPage w (clock s2) page (Some bs) of
                        Inl e \<Rightarrow> Some (Inl e, s2)
                      | Inr fp \<Rightarrow> Some (Inr (CFormatted fp), s2))))))
       DEFAULT_CACHE_CONFIG"

subsection \<open>\<^verbatim>\<open>getFormattedDatabase\<close>\<close>

text \<open>\<^verbatim>\<open>!process.env.NOTION_DATABASE_ID\<close>: the variable is absent or empty.\<close>

definition database_id_unset :: "'p world \<Rightarrow> bool" where
  "database_id_unset w \<longleftrightarrow> \<not> str_truthy (env_NOTION_DATABASE_ID w)"

definition database_error_message :: "'p world \<Rightarrow> string \<Rightarrow> string" where
  "database_error_message w errorMsg =
     (if js_includes errorMsg ''404'' then
        ''Database not found (ID: '' @ show_opt (NOTION_DATABASE_ID w) @ '')''
      else if js_includes errorMsg ''401'' \<or> js_includes errorMsg ''403'' then
        ''No permission to access the database (ID: '' @ show_opt (NOTION_DATABASE_ID w) @ '')''
      else ''Failed to fetch and format the database: '' @ errorMsg)"

text \<open>
  The body shared by the functions that query the collection and shape the rows: the
  second check of the identifier, the query, \<^verbatim>\<open>formatPages\<close>.
\<close>

definition query_pages ::
  "'p world \<Rightarrow> (string \<times> string) list option \<Rightarrow> db_filter option \<Rightarrow> 'p casync" where
  "query_pages w sorts0 filter0 s =
     (if database_id_unset w then Some (Inl (Error MSG_DATABASE_ID_UNSET), s)
      else
        (let queryOptions =
               \<lparr>database_id = the (env_NOTION_DATABASE_ID w), q_sorts = sorts0, q_filter = filter0\<rparr>;
             s1 = sent (Query queryOptions) s
         in (case databases_query w queryOptions of
               Inl e \<Rightarrow> Some (Inl e, s1)
             | Inr response \<Rightarrow>
                 (case formatPages w (clock s1) response of
                    Inl e \<Rightarrow> Some (Inl e, s1)
                  | Inr fps \<Rightarrow> Some (Inr (CPages fps), s1)))))"

definition date_descending :: "(string \<times> string) list option" where
  "date_descending = Some [(''date'', ''descending'')]"

definition getFormattedDatabase :: "'p world \<Rightarrow> bool \<Rightarrow> string \<Rightarrow> 'p casync" where
  "getFormattedDatabase w filterByStatus statusName s =
     (if database_id_unset w then Some (Inl (Error MSG_DATABASE_ID_UNSET), s)
      else
        getFromCacheOrFetch
          (''formatted-database:'' @ show_bool filterByStatus @ '':'' @ statusName)
          (\<lambda>s0. rethrow (database_error_message w)
             (query_pages w date_descending
                (if filterByStatus then Some (SelectEquals ''status'' statusName) else None) s0))
          DEFAULT_CACHE_CONFIG s)"

subsection \<open>\<^verbatim>\<open>getPageBySlug\<close>\<close>

definition getPageBySlug :: "nat \<Rightarrow> 'p world \<Rightarrow> string \<Rightarrow> 'p casync" where
  "getPageBySlug depth w slugText s =
     (if database_id_unset w then Some (Inl (Error MSG_DATABASE_ID_UNSET), s)
      else
        getFromCacheOrFetch (''page-by-slug:'' @ slugText)
          (\<lambda>s0. rethrow (\<lambda>errorMsg. ''Failed to fetch the page by slug: '' @ errorMsg)
             (if database_id_unset w then Some (Inl (Error MSG_DATABASE_ID_UNSET), s0)
              else
                (let queryOptions =
                       \<lparr>database_id = the (env_NOTION_DATABASE_ID w), q_sorts = None,
                        q_filter = Some (RichTextEquals ''slug'' slugText)\<rparr>;
                     s1 = sent (Query queryOptions) s0
                 in (case databases_query w queryOptions of
                       Inl e \<Rightarrow> Some (Inl e, s1)
                     | Inr [] \<Rightarrow> Some (Inr CNull, s1)
                     | Inr (first # rest) \<Rightarrow>
                         await (cast as_blocks (getBlocks depth w (page_id first) s1))
                           (\<lambda>bs s2.
                              await (cast as_page (getPage w (page_id first) s2))
                                (\<lambda>page s3.
                                   (case formatPage w (clock s3) page (Some bs) of
                                      Inl e \<Rightarrow> Some (Inl e, s3)
                                    | Inr fp \<Rightarrow> Some (Inr (CFormatted fp), s3))))))))
          DEFAULT_CACHE_CONFIG s)"

subsection \<open>\<^verbatim>\<open>getPagesByTag\<close> and \<^verbatim>\<open>getPagesByCategory\<close>\<close>

definition getPagesByTag :: "'p world \<Rightarrow> string \<Rightarrow> 'p casync" where
  "getPagesByTag w tagName s =
     (if database_id_unset w then Some (Inl (Error MSG_DATABASE_ID_UNSET), s)
      else
        getFromCacheOrFetch (''pages-by-tag:'' @ tagName)
          (\<lambda>s0. rethrow (\<lambda>errorMsg. ''Failed to filter by tag: '' @ errorMsg)
             (query_pages w date_descending (Some (MultiSelectContains ''tags'' tagName)) s0))
          DEFAULT_CACHE_CONFIG s)"

definition getPagesByCategory :: "'p world \<Rightarrow> string \<Rightarrow> 'p casync" where
  "getPagesByCategory w categoryName s =
     (if database_id_unset w then Some (Inl (Error MSG_DATABASE_ID_UNSET), s)
      else
        getFromCacheOrFetch (''pages-by-category:'' @ categoryName)
          (\<lambda>s0. rethrow (\<lambda>errorMsg. ''Failed to filter by category: '' @ errorMsg)
             (query_pages w date_descending (Some (SelectEquals ''category'' categoryName)) s0))
          DEFAULT_CACHE_CONFIG s)"

subsection \<open>\<^verbatim>\<open>getAllTags\<close> and \<^verbatim>\<open>getAllCategories\<close>\<close>

text \<open>
  \<^verbatim>\<open>Array.from(set).sort()\<close>: the distinct names in the order of their character codes.
\<close>

definition sorted_names :: "string list \<Rightarrow> string list" where
  "sorted_names names = sort (remdups names)"

definition getAllTags :: "'p world \<Rightarrow> 'p casync" where
  "getAllTags w =
     getFromCacheOrFetch ''all-tags''
       (\<lambda>s. rethrow (\<lambda>errorMsg. ''Failed to fetch all tags: '' @ errorMsg)
          (await (cast as_pages (getFormattedDatabase w True ''Public'' s))
             (\<lambda>pages s1.
                Some (Inr (CStrings
                  (sorted_names (concat (map (\<lambda>page. map tag_name (tags page)) pages)))), s1))))
       DEFAULT_CACHE_CONFIG"

definition getAllCategories :: "'p world \<Rightarrow> 'p casync" where
  "getAllCategories w =
     getFromCacheOrFetch ''all-categories''
       (\<lambda>s. rethrow (\<lambda>errorMsg. ''Failed to fetch all categories: '' @ errorMsg)
          (await (cast as_pages (getFormattedDatabase w True ''Public'' s))
             (\<lambda>pages s1.
                Some (Inr (CStrings
                  (sorted_names
                     (map (\<lambda>page. the (category page))
                        (filter (\<lambda>page. str_truthy (category page)) pages)))), s1))))
       DEFAULT_CACHE_CONFIG"

subsection \<open>\<^verbatim>\<open>searchPages\<close>\<close>

text \<open>The callback of \<^verbatim>\<open>allPages.filter(...)\<close>.\<close>

definition page_matches :: "string \<Rightarrow> 'p FormattedPage \<Rightarrow> bool" where
  "page_matches lowerQuery page \<longleftrightarrow>
     js_includes (toLowerCase (title page)) lowerQuery \<or>
     js_includes (toLowerCase (summary page)) lowerQuery \<or>
     list_ex (\<lambda>t. js_includes (toLowerCase (tag_name t)) lowerQuery) (tags page) \<or>
     (str_truthy (category page) \<and>
      js_includes (toLowerCase (the (category page))) lowerQuery)"

definition searchPages ::
  "'p world \<Rightarrow> string \<Rightarrow> 'p cstate \<Rightarrow> ((error + 'p FormattedPage list) \<times> 'p cstate) option" where
  "searchPages w query s =
     (if trim query = [] then Some (Inr [], s)
      else
        rethrow (\<lambda>errorMsg. ''Failed to search pages: '' @ errorMsg)
          (await (cast as_pages (getFormattedDatabase w False ''Public'' s))
             (\<lambda>allPages s1.
                Some (Inr (filter (page_matches (toLowerCase query)) allPages), s1))))"

section \<open>Notions used to state the properties of the client\<close>

subsection \<open>A paginated source\<close>






text \<open>The entry a successful fetch stores under the default configuration.\<close>

definition stored :: "string \<Rightarrow> 'v \<Rightarrow> rat \<Rightarrow> ('v, 'q) state \<Rightarrow> ('v, 'q) state" where
  "stored key d now s =
     s\<lparr>cache := (cache s)(key \<mapsto>
          \<lparr>data = d, timestamp = now, expiresAt = now + ttl DEFAULT_CACHE_CONFIG\<rparr>)\<rparr>"

subsection \<open>Listings without content\<close>

text \<open>The keys under which the listing operations store their results.\<close>

definition listing_key :: "string \<Rightarrow> bool" where
  "listing_key key \<longleftrightarrow>
     prefix ''formatted-database:'' key \<or> prefix ''pages-by-tag:'' key \<or>
     prefix ''pages-by-category:'' key"

fun no_blocks :: "'p cached \<Rightarrow> bool" where
  "no_blocks (CPages ps) = list_all (\<lambda>p. blocks p = []) ps"
| "no_blocks _ = False"

text \<open>
  Every entry under a listing key, and every settled refresh waiting to be written under
  one, holds pages without blocks.
\<close>

definition cache_ok :: "'p cstate \<Rightarrow> bool" where
  "cache_ok s \<longleftrightarrow>
     (\<forall>key item. cache s key = Some item \<longrightarrow> listing_key key \<longrightarrow> no_blocks (data item)) \<and>
     (\<forall>r \<in> set (background s). \<forall>v. listing_key (rkey r) \<longrightarrow> routcome r = Some (Inr v)
        \<longrightarrow> no_blocks v)"

text \<open>A result that may be stored or handed out under \<open>key\<close>.\<close>

definition good :: "string \<Rightarrow> error + 'p cached \<Rightarrow> bool" where
  "good key r \<longleftrightarrow> (listing_key key \<longrightarrow> (\<forall>v. r = Inr v \<longrightarrow> no_blocks v))"

definition initial :: "rat \<Rightarrow> 'p cstate" where
  "initial t = \<lparr>cache = Map.empty, clock = t, requests = [], background = []\<rparr>"

text \<open>
  The states the module can be in: it starts with an empty cache; time passes; a detached
  refresh settles; any exported operation runs to its end, against whatever the remote
  API and the environment are at that moment.
\<close>

inductive reachable :: "'p cstate \<Rightarrow> bool" where
  start: "reachable (initial t)"
| tick: "reachable s \<Longrightarrow> reachable (s\<lparr>clock := t\<rparr>)"
| settle: "reachable s \<Longrightarrow> r \<in> set (background s)
     \<Longrightarrow> reachable (settle_refresh r (s\<lparr>background := remove1 r (background s)\<rparr>))"
| clear: "reachable s \<Longrightarrow> reachable (clearCache keyPrefix s)"
| page: "reachable s \<Longrightarrow> getPage w pageId s = Some (res, s') \<Longrightarrow> reachable s'"
| content: "reachable s \<Longrightarrow> getBlocks depth w blockId s = Some (res, s') \<Longrightarrow> reachable s'"
| formatted: "reachable s \<Longrightarrow> getFormattedPage depth w pageId fetchBlocks s = Some (res, s')
     \<Longrightarrow> reachable s'"
| database: "reachable s \<Longrightarrow> getFormattedDatabase w filterByStatus statusName s = Some (res, s')
     \<Longrightarrow> reachable s'"
| by_slug: "reachable s \<Longrightarrow> getPageBySlug depth w slugText s = Some (res, s') \<Longrightarrow> reachable s'"
| by_tag: "reachable s \<Longrightarrow> getPagesByTag w tagName s = Some (res, s') \<Longrightarrow> reachable s'"
| all_tags: "reachable s \<Longrightarrow> getAllTags w s = Some (res, s') \<Longrightarrow> reachable s'"
| by_category: "reachable s \<Longrightarrow> getPagesByCategory w categoryName s = Some (res, s')
     \<Longrightarrow> reachable s'"
| all_categories: "reachable s \<Longrightarrow> getAllCategories w s = Some (res, s') \<Longrightarrow> reachable s'"
| search: "reachable s \<Longrightarrow> searchPages w query s = Some (res', s') \<Longrightarrow> reachable s'"

subsection \<open>A small remote source for examples\<close>

definition block_of :: "string \<Rightarrow> unit block" where
  "block_of i = Block i ''paragraph'' False None ()"

definition first_page :: "unit list_response" where
  "first_page = \<lparr>results = [block_of ''1'', block_of ''2''], has_more = True,
     next_cursor = Some ''next-page''\<rparr>"

definition second_page :: "unit list_response" where
  "second_page = \<lparr>results = [block_of ''3'', block_of ''4''], has_more = False,
     next_cursor = None\<rparr>"

definition raw_page :: "string \<Rightarrow> string \<Rightarrow> PageResponse" where
  "raw_page i t =
     \<lparr>page_id = i,
      properties = \<lparr>title_text = Some t, slug_text = None, thumbnail_files = [],
        date_start = Some ''2024-01-01'', updatedAt_time = None, tags_multi_select = None,
        author_people = [], category_name = None, status_name = Some ''Public'',
        summary_text = None, keywords_text = None\<rparr>,
      cover = None, created_time = None, last_edited_time = None\<rparr>"

text \<open>
  A source with two pages of two children each for every block, and a collection whose
  only row has the title \<open>t\<close>; \<open>dbid\<close> is the collection identifier in the environment.
\<close>

definition world_of :: "string option \<Rightarrow> string \<Rightarrow> unit world" where
  "world_of dbid t =
     \<lparr>pages_retrieve = (\<lambda>i. Inr (raw_page i t)),
      blocks_children_list =
        (\<lambda>i c n. if c = None then Inr first_page
                  else if c = Some ''next-page'' then Inr second_page
                  else Inl (Error ''404'')),
      databases_query = (\<lambda>q. Inr [raw_page ''p1'' t]),
      env_NOTION_DATABASE_ID = dbid,
      NOTION_DATABASE_ID = dbid,
      date_to_iso = (\<lambda>d. Some (d @ ''T00:00:00.000Z'')),
      now_iso = (\<lambda>t. ''2024-06-01T00:00:00.000Z'')\<rparr>"

definition formatted_of :: "string \<Rightarrow> string \<Rightarrow> unit FormattedPage" where
  "formatted_of i t =
     \<lparr>fp_id = i, title = t, summary = '''', slug = i, author = None, page_keywords = [],
      category = None, tags = [], blocks = [], thumbnail = None,
      date = ''2024-01-01T00:00:00.000Z'', updatedAt = ''2024-01-01T00:00:00.000Z'',
      status = Some ''Public''\<rparr>"

text \<open>
  A cache that holds, since instant 0, the unfiltered listing of a collection whose only
  row was then titled \<open>old\<close>; the clock stands at one second.
\<close>

definition stale_state :: "unit cstate" where
  "stale_state =
     stored ''formatted-database:false:Public'' (CPages [formatted_of ''p1'' ''old'']) 0
       (initial 1000)"

definition all_rows :: db_query where
  "all_rows = \<lparr>database_id = ''db'', q_sorts = date_descending, q_filter = None\<rparr>"

definition public_rows :: db_query where
  "public_rows = \<lparr>database_id = ''db'', q_sorts = date_descending,
     q_filter = Some (SelectEquals ''status'' ''Public'')\<rparr>"

section \<open>Properties of the grouper\<close>



lemma listTag_Some [simp]: "listTag (Some t) = t"
  by (cases t) (simp_all add: listTag_def)









lemma decimal_2: "decimal (Suc (Suc 0)) = ''2''"
  by code_simp

text \<open>
  Claim C4. Applied to a bulleted item, a bulleted item and a numbered item,
  \<^verbatim>\<open>groupBlocks\<close> yields exactly two units: an unordered container holding the two
  bulleted items in input order, then an ordered container holding the numbered item.
\<close>

theorem groupBlocks_example:
  "groupBlocks
     [Block ia ''bulleted_list_item'' ha ca pa,
      Block ib ''bulleted_list_item'' hb cb pb,
      Block ic ''numbered_list_item'' hc cc pc] =
   [ListNode UL ''list-2''
      [NotionBlockNode ia (Block ia ''bulleted_list_item'' ha ca pa),
       NotionBlockNode ib (Block ib ''bulleted_list_item'' hb cb pb)],
    ListNode OL ''list-last''
      [NotionBlockNode ic (Block ic ''numbered_list_item'' hc cc pc)]]"
  by (simp add: groupBlocks_def group_init_def group_step_def flush_def is_list_item_def
      newListType_def listTag_def decimal_2 Let_def)

section \<open>Properties of the rich text renderer\<close>

lemma color_classes_ok: "color_ok c \<Longrightarrow> \<exists>cs. color_classes c = Inr cs"
  by (cases c) (simp_all add: color_ok_def color_classes_def Let_def)

lemma getStyleClasses_ok:
  "color_ok (color a) \<Longrightarrow> \<exists>sc. getStyleClasses (Some a) ty = Inr sc"
  using color_classes_ok [of "color a"] by (auto simp: getStyleClasses_def)

lemma spine_wrap_if:
  "spine (wrap_if f tag props c) = (if truthy f then tag # spine c else spine c)"
  by (simp add: wrap_if_def)






lemma render_span_ok:
  assumes "span_ok t"
  shows "\<exists>n. render_span i t = Inr n \<and> spine n = expected_spine t"
proof -
  from assms obtain a where a: "annotations t = Some a" "color_ok (color a)"
    by (auto simp: span_ok_def split: option.splits)
  from getStyleClasses_ok [OF a(2)] obtain sc where
    sc: "getStyleClasses (Some a) (rtype t) = Inr sc" by blast
  from a(1) sc show ?thesis
    by (simp add: render_span_def Let_def spine_wrap_if style_tags_def expected_spine_def
        outer_tag_def)
qed

lemma render_spans_ok:
  "list_all span_ok ts \<Longrightarrow>
     \<exists>ns. render_spans i ts = Inr ns \<and> map spine ns = map expected_spine ts"
proof (induction ts arbitrary: i)
  case Nil
  then show ?case by simp
next
  case (Cons t ts)
  from Cons.prems have "span_ok t" and rest: "list_all span_ok ts" by simp_all
  from render_span_ok [OF \<open>span_ok t\<close>] obtain n where
    n: "render_span i t = Inr n" "spine n = expected_spine t" by blast
  from Cons.IH [OF rest] obtain ns where
    ns: "render_spans (Suc i) ts = Inr ns" "map spine ns = map expected_spine ts" by blast
  from n ns show ?case by simp
qed

text \<open>
  Claim C6, as amended. The renderer is a function of its input alone. For an absent or
  empty input it returns nothing. For every sequence of spans whose annotation object is
  present and whose colour is falsy or a string it never throws: it returns one unit per
  span, in order, each with exactly the wrappers of its truthy flags. A span with the
  empty annotation object \<^verbatim>\<open>{}\<close> is emitted as a bare \<open>span\<close> around its text.
\<close>

theorem RichText_never_throws:
  "RichText None = Inr None \<and> RichText (Some []) = Inr None \<and>
   (items \<noteq> [] \<and> list_all span_ok items \<longrightarrow>
      (\<exists>ns. RichText (Some items) = Inr (Some (Fragment ns)) \<and>
            map spine ns = map expected_spine items)) \<and>
   render_span i \<lparr>rtype = ''text'', plain_text = p, href = None,
                  annotations = Some empty_annotations\<rparr> =
     Inr (Elem ''span'' [(''key'', decimal i)] [Fragment [Text p]])"
proof -
  have "\<exists>ns. RichText (Some items) = Inr (Some (Fragment ns)) \<and>
             map spine ns = map expected_spine items"
    if "items \<noteq> []" and "list_all span_ok items"
  proof -
    from render_spans_ok [OF that(2), of 0] obtain ns where
      "render_spans 0 items = Inr ns" "map spine ns = map expected_spine items" by blast
    with that(1) show ?thesis by (simp add: RichText_def)
  qed
  moreover
  have "render_span i \<lparr>rtype = ''text'', plain_text = p, href = None,
                  annotations = Some empty_annotations\<rparr> =
     Inr (Elem ''span'' [(''key'', decimal i)] [Fragment [Text p]])"
    by (simp add: render_span_def getStyleClasses_def color_classes_def empty_annotations_def
        wrap_if_def Let_def)
  ultimately show ?thesis by (simp add: RichText_def)
qed

theorem RichText_never_throws_witness:
  "list_all span_ok
     [\<lparr>rtype = ''text'', plain_text = ''x'', href = None, annotations = Some empty_annotations\<rparr>,
      \<lparr>rtype = ''text'', plain_text = ''y'', href = None,
       annotations = Some (unstyled\<lparr>italic := JBool True, color := JStr ''red''\<rparr>)\<rparr>] \<and>
   (\<exists>ns. RichText (Some
     [\<lparr>rtype = ''text'', plain_text = ''x'', href = None, annotations = Some empty_annotations\<rparr>,
      \<lparr>rtype = ''text'', plain_text = ''y'', href = None,
       annotations = Some (unstyled\<lparr>italic := JBool True, color := JStr ''red''\<rparr>)\<rparr>]) =
       Inr (Some (Fragment ns)) \<and>
     map spine ns = [[''span''], [''span'', ''em'']])"
  using RichText_never_throws
    [of "[\<lparr>rtype = ''text'', plain_text = ''x'', href = None, annotations = Some empty_annotations\<rparr>,
      \<lparr>rtype = ''text'', plain_text = ''y'', href = None,
       annotations = Some (unstyled\<lparr>italic := JBool True, color := JStr ''red''\<rparr>)\<rparr>]" 0 "''''"]
  by (simp add: span_ok_def color_ok_def unstyled_def empty_annotations_def expected_spine_def
      outer_tag_def style_tags_def)

text \<open>
  The claim as stated fails for a span without annotations: destructuring the absent
  object raises a \<^verbatim>\<open>TypeError\<close>, which the renderer does not catch.
\<close>

theorem RichText_absent_annotations_counterexample:
  "RichText (Some [\<lparr>rtype = ''text'', plain_text = ''x'', href = None, annotations = None\<rparr>]) =
     Inl (TypeError ''Cannot destructure property bold of annotations'')"
  by (simp add: RichText_def render_span_def)

section \<open>Properties of the content cache\<close>





section \<open>Properties of the content client\<close>

text \<open>
  Claim C8. When the collection identifier is unset (absent or empty),
  \<^verbatim>\<open>getFormattedDatabase\<close> throws the configuration error at once and leaves the state as
  it was: no request has been sent, and the cache has been neither read for the result,
  which is the same for every cache, nor written.
\<close>

theorem getFormattedDatabase_unset:
  assumes "database_id_unset w"
  shows "getFormattedDatabase w filterByStatus statusName s =
           Some (Inl (Error MSG_DATABASE_ID_UNSET), s)"
  using assms by (simp add: getFormattedDatabase_def)








theorem getFormattedDatabase_unset_witness:
  "database_id_unset (world_of None ''new'') \<and>
   getFormattedDatabase (world_of None ''new'') True ''Public'' stale_state =
     Some (Inl (Error MSG_DATABASE_ID_UNSET), stale_state)"
  using getFormattedDatabase_unset [of "world_of None ''new''" True "''Public''" stale_state]
  by (simp add: database_id_unset_def world_of_def)



section \<open>Listings carry no content: an invariant of the cache\<close>

lemma rethrow_Some:
  "rethrow d m = Some (r, s') \<Longrightarrow> \<exists>r0. m = Some (r0, s') \<and> (\<forall>v. r = Inr v \<longrightarrow> r0 = Inr v)"
  by (auto simp: rethrow_def split: option.splits sum.splits prod.splits)

lemma await_Some:
  "await m f = Some (r, s') \<Longrightarrow>
     (\<exists>e. m = Some (Inl e, s') \<and> r = Inl e) \<or> (\<exists>a s1. m = Some (Inr a, s1) \<and> f a s1 = Some (r, s'))"
  by (auto simp: await_def split: option.splits sum.splits prod.splits)

lemma cast_Some:
  "cast as m = Some (r, s') \<Longrightarrow> \<exists>r0. m = Some (r0, s') \<and> (\<forall>a. r = Inr a \<longrightarrow> (\<exists>v. r0 = Inr v \<and> as v = Inr a))"
  by (auto simp: cast_def split: option.splits sum.splits prod.splits)

lemma cache_ok_sent [simp]: "cache_ok (sent q s) = cache_ok s"
  by (simp add: cache_ok_def sent_def)

lemma formatPage_blocks:
  "formatPage w now page b = Inr fp \<Longrightarrow> blocks fp = (case b of Some bs \<Rightarrow> bs | None \<Rightarrow> [])"
  by (auto simp: formatPage_def Let_def split: option.splits)

lemma formatPages_no_blocks:
  "formatPages w now pages = Inr fps \<Longrightarrow> list_all (\<lambda>p. blocks p = []) fps"
proof (induction pages arbitrary: fps)
  case Nil
  then show ?case by simp
next
  case (Cons page pages)
  then show ?case
    by (auto split: sum.splits dest: formatPage_blocks)
qed

lemma query_pages_ok:
  "query_pages w so fi s = Some (r, s') \<Longrightarrow>
     cache_ok s' = cache_ok s \<and> (\<forall>v. r = Inr v \<longrightarrow> no_blocks v)"
  by (auto simp: query_pages_def Let_def split: if_splits sum.splits dest: formatPages_no_blocks)

lemma getFromCacheOrFetch_ok:
  assumes ok: "cache_ok s"
    and fetch: "\<And>r s1. fetchFn s = Some (r, s1) \<Longrightarrow> cache_ok s1 \<and> good key r"
    and ret: "getFromCacheOrFetch key fetchFn config s = Some (res, s')"
  shows "cache_ok s' \<and> good key res"
proof (cases "cache s key")
  case None
  with ret fetch show ?thesis
    by (auto simp: getFromCacheOrFetch_def Let_def cache_ok_def good_def
        split: option.splits sum.splits prod.splits if_splits)
next
  case (Some item)
  from ok Some have item: "listing_key key \<longrightarrow> no_blocks (data item)"
    by (auto simp: cache_ok_def)
  show ?thesis
  proof (cases "clock s < expiresAt item")
    case True
    show ?thesis
    proof (cases "fetchFn s")
      case None
      with ret Some True ok item show ?thesis
        by (auto simp: getFromCacheOrFetch_def Let_def cache_ok_def good_def spawn_refresh_def
            split: if_splits)
    next
      case (Some a)
      obtain r s1 where a: "a = (r, s1)" by (cases a)
      from fetch [of r s1] Some a have "cache_ok s1" "good key r" by simp_all
      with ret \<open>cache s key = Some item\<close> True ok item Some a show ?thesis
        by (auto simp: getFromCacheOrFetch_def Let_def cache_ok_def good_def spawn_refresh_def
            split: if_splits)
    qed
  next
    case False
    with ret Some fetch item show ?thesis
      by (auto simp: getFromCacheOrFetch_def Let_def cache_ok_def good_def
          split: option.splits sum.splits prod.splits if_splits)
  qed
qed

lemma not_listing:
  "\<not> listing_key (''page:'' @ x)"
  "\<not> listing_key (''blocks:'' @ x)"
  "\<not> listing_key (''formatted-page:'' @ x)"
  "\<not> listing_key (''page-by-slug:'' @ x)"
  "\<not> listing_key ''all-tags''"
  "\<not> listing_key ''all-categories''"
  by (simp_all add: listing_key_def)

lemma good_not_listing: "\<not> listing_key key \<Longrightarrow> good key r"
  by (simp add: good_def)

lemma getPage_ok:
  assumes "cache_ok s" and "getPage w pageId s = Some (res, s')"
  shows "cache_ok s'"
proof -
  have "cache_ok s' \<and> good (''page:'' @ pageId) res"
  proof (rule getFromCacheOrFetch_ok [OF assms(1) _ assms(2) [unfolded getPage_def]])
    fix r s1
    assume "rethrow (page_error_message pageId)
        (case pages_retrieve w pageId of
           Inl e \<Rightarrow> Some (Inl e, sent (Retrieve pageId) s)
         | Inr response \<Rightarrow> Some (Inr (CPage response), sent (Retrieve pageId) s)) = Some (r, s1)"
    then have "s1 = sent (Retrieve pageId) s"
      by (auto simp: rethrow_def split: sum.splits)
    with assms(1) show "cache_ok s1 \<and> good (''page:'' @ pageId) r"
      using good_not_listing [OF not_listing(1), of pageId r] by simp
  qed
  then show ?thesis ..
qed

lemma list_all_children_frame:
  assumes "list_all_children w blockId cursor allBlocks s = Some y"
  shows "cache_ok (snd y) = cache_ok s"
  using assms
proof (induction rule: list_all_children.raw_induct [rotated 1, consumes 1])
  case (1 rec w blockId cursor allBlocks s y)
  show ?case
  proof (cases "blocks_children_list w blockId cursor 100")
    case (Inl e)
    with 1(2) show ?thesis by auto
  next
    case (Inr response)
    show ?thesis
    proof (cases "has_more response")
      case True
      with 1(2) Inr have "rec w blockId (norm_cursor (next_cursor response))
          (allBlocks @ results response) (sent (ListChildren blockId cursor 100) s) = Some y"
        by simp
      from 1(1) [OF this] show ?thesis by simp
    next
      case False
      with 1(2) Inr show ?thesis by auto
    qed
  qed
qed

lemma list_all_children_ok:
  "list_all_children w blockId cursor allBlocks s = Some (r, s') \<Longrightarrow> cache_ok s' = cache_ok s"
  using list_all_children_frame [of w blockId cursor allBlocks s "(r, s')"] by simp

lemma resolve_children_ok:
  assumes get: "\<And>i s r s'. cache_ok s \<Longrightarrow> get i s = Some (r, s') \<Longrightarrow> cache_ok s'"
  shows "cache_ok s \<Longrightarrow> resolve_children get bs s = Some (r, s') \<Longrightarrow> cache_ok s'"
proof (induction bs arbitrary: s r s')
  case Nil
  then show ?case by simp
next
  case (Cons b bs)
  show ?case
  proof (cases "has_children b")
    case True
    with Cons.prems(2) have
      "await (cast as_blocks (get (bid b) s))
          (\<lambda>cs s1. await (resolve_children get bs s1)
             (\<lambda>bs' s2. Some (Inr (set_children b cs # bs'), s2))) = Some (r, s')" by simp
    from await_Some [OF this] show ?thesis
    proof
      assume "\<exists>e. cast as_blocks (get (bid b) s) = Some (Inl e, s') \<and> r = Inl e"
      then obtain e where "cast as_blocks (get (bid b) s) = Some (Inl e, s')" by blast
      from cast_Some [OF this] obtain r0 where "get (bid b) s = Some (r0, s')" by auto
      with get Cons.prems(1) show ?thesis by blast
    next
      assume "\<exists>a s1. cast as_blocks (get (bid b) s) = Some (Inr a, s1) \<and>
        await (resolve_children get bs s1) (\<lambda>bs' s2. Some (Inr (set_children b a # bs'), s2)) =
          Some (r, s')"
      then obtain a s1 where c: "cast as_blocks (get (bid b) s) = Some (Inr a, s1)"
        and rest: "await (resolve_children get bs s1)
          (\<lambda>bs' s2. Some (Inr (set_children b a # bs'), s2)) = Some (r, s')" by blast
      from cast_Some [OF c] obtain r0 where "get (bid b) s = Some (r0, s1)" by auto
      with get Cons.prems(1) have ok1: "cache_ok s1" by blast
      from await_Some [OF rest] obtain r1 where "resolve_children get bs s1 = Some (r1, s')"
        by auto
      from Cons.IH [OF ok1 this] show ?thesis .
    qed
  next
    case False
    with Cons.prems(2) have
      "await (resolve_children get bs s) (\<lambda>bs' s1. Some (Inr (b # bs'), s1)) = Some (r, s')"
      by simp
    from await_Some [OF this] obtain r1 where "resolve_children get bs s = Some (r1, s')"
      by auto
    from Cons.IH [OF Cons.prems(1) this] show ?thesis .
  qed
qed


lemma await_ok:
  assumes "await m f = Some (r, s')"
    and "\<And>r0 s0. m = Some (r0, s0) \<Longrightarrow> Q s0"
    and "\<And>a s0. m = Some (Inr a, s0) \<Longrightarrow> f a s0 = Some (r, s') \<Longrightarrow> Q s'"
  shows "Q s'"
  using await_Some [OF assms(1)] assms(2,3) by blast

lemma cast_ok:
  assumes "cast as m = Some (r, s')" and "\<And>r0. m = Some (r0, s') \<Longrightarrow> Q s'"
  shows "Q s'"
  using cast_Some [OF assms(1)] assms(2) by blast

lemma blocks_fetch_ok:
  assumes get: "\<And>i s r s'. cache_ok s \<Longrightarrow> get i s = Some (r, s') \<Longrightarrow> cache_ok s'"
    and ok: "cache_ok s" and ret: "blocks_fetch get w blockId s = Some (r, s1)"
  shows "cache_ok s1"
proof -
  from rethrow_Some [OF ret [unfolded blocks_fetch_def]] obtain r0 where
    m: "await (list_all_children w blockId None [] s)
          (\<lambda>allBlocks s1. await (resolve_children get allBlocks s1)
             (\<lambda>bs s2. Some (Inr (CBlocks bs), s2))) = Some (r0, s1)" by blast
  show ?thesis
  proof (rule await_ok [OF m])
    fix r1 s0 assume "list_all_children w blockId None [] s = Some (r1, s0)"
    with list_all_children_ok ok show "cache_ok s0" by blast
  next
    fix a s0
    assume loop: "list_all_children w blockId None [] s = Some (Inr a, s0)"
      and rest: "await (resolve_children get a s0) (\<lambda>bs s2. Some (Inr (CBlocks bs), s2)) =
        Some (r0, s1)"
    from list_all_children_ok [OF loop] ok have ok0: "cache_ok s0" by simp
    from await_Some [OF rest] obtain r2 where "resolve_children get a s0 = Some (r2, s1)"
      by auto
    from resolve_children_ok [of get, OF get ok0 this] show "cache_ok s1" .
  qed
qed

lemma getBlocks_ok:
  "cache_ok s \<Longrightarrow> getBlocks depth w blockId s = Some (res, s') \<Longrightarrow> cache_ok s'"
proof (induction depth arbitrary: blockId s res s')
  case 0
  then show ?case by simp
next
  case (Suc depth)
  have "cache_ok s' \<and> good (''blocks:'' @ blockId) res"
  proof (rule getFromCacheOrFetch_ok [OF Suc.prems(1) _ Suc.prems(2) [unfolded getBlocks.simps]])
    fix r s1
    assume "blocks_fetch (getBlocks depth w) w blockId s = Some (r, s1)"
    from blocks_fetch_ok [of "getBlocks depth w", OF Suc.IH Suc.prems(1) this]
    show "cache_ok s1 \<and> good (''blocks:'' @ blockId) r"
      using good_not_listing [OF not_listing(2), of blockId r] by simp
  qed
  then show ?case ..
qed

lemma listing_fetch_ok:
  assumes ok: "cache_ok s" and key: "listing_key key"
    and ret: "getFromCacheOrFetch key (\<lambda>s0. rethrow d (query_pages w so fi s0)) config s =
      Some (res, s')"
  shows "cache_ok s' \<and> (\<forall>v. res = Inr v \<longrightarrow> no_blocks v)"
proof -
  have "cache_ok s' \<and> good key res"
  proof (rule getFromCacheOrFetch_ok [OF ok _ ret])
    fix r s1
    assume "rethrow d (query_pages w so fi s) = Some (r, s1)"
    from rethrow_Some [OF this] obtain r0 where
      q: "query_pages w so fi s = Some (r0, s1)" and r: "\<forall>v. r = Inr v \<longrightarrow> r0 = Inr v" by blast
    from query_pages_ok [OF q] ok r show "cache_ok s1 \<and> good key r"
      by (auto simp: good_def)
  qed
  with key show ?thesis by (simp add: good_def)
qed

lemma is_listing:
  "listing_key (''formatted-database:'' @ x)"
  "listing_key (''pages-by-tag:'' @ x)"
  "listing_key (''pages-by-category:'' @ x)"
  by (simp_all add: listing_key_def)

lemma getFormattedDatabase_ok:
  assumes "cache_ok s" and "getFormattedDatabase w filterByStatus statusName s = Some (res, s')"
  shows "cache_ok s' \<and> (\<forall>v. res = Inr v \<longrightarrow> no_blocks v)"
proof (cases "database_id_unset w")
  case True
  with assms show ?thesis by (auto simp: getFormattedDatabase_def)
next
  case False
  with assms(2) have "getFromCacheOrFetch
      (''formatted-database:'' @ show_bool filterByStatus @ '':'' @ statusName)
      (\<lambda>s0. rethrow (database_error_message w)
         (query_pages w date_descending
            (if filterByStatus then Some (SelectEquals ''status'' statusName) else None) s0))
      DEFAULT_CACHE_CONFIG s = Some (res, s')"
    unfolding getFormattedDatabase_def by (simp only: if_False)
  from listing_fetch_ok [OF assms(1) is_listing(1) this] show ?thesis .
qed

lemma getPagesByTag_ok:
  assumes "cache_ok s" and "getPagesByTag w tagName s = Some (res, s')"
  shows "cache_ok s' \<and> (\<forall>v. res = Inr v \<longrightarrow> no_blocks v)"
proof (cases "database_id_unset w")
  case True
  with assms show ?thesis by (auto simp: getPagesByTag_def)
next
  case False
  with assms(2) have "getFromCacheOrFetch (''pages-by-tag:'' @ tagName)
      (\<lambda>s0. rethrow (\<lambda>errorMsg. ''Failed to filter by tag: '' @ errorMsg)
         (query_pages w date_descending (Some (MultiSelectContains ''tags'' tagName)) s0))
      DEFAULT_CACHE_CONFIG s = Some (res, s')"
    unfolding getPagesByTag_def by (simp only: if_False)
  from listing_fetch_ok [OF assms(1) is_listing(2) this] show ?thesis .
qed

lemma getPagesByCategory_ok:
  assumes "cache_ok s" and "getPagesByCategory w categoryName s = Some (res, s')"
  shows "cache_ok s' \<and> (\<forall>v. res = Inr v \<longrightarrow> no_blocks v)"
proof (cases "database_id_unset w")
  case True
  with assms show ?thesis by (auto simp: getPagesByCategory_def)
next
  case False
  with assms(2) have "getFromCacheOrFetch (''pages-by-category:'' @ categoryName)
      (\<lambda>s0. rethrow (\<lambda>errorMsg. ''Failed to filter by category: '' @ errorMsg)
         (query_pages w date_descending (Some (SelectEquals ''category'' categoryName)) s0))
      DEFAULT_CACHE_CONFIG s = Some (res, s')"
    unfolding getPagesByCategory_def by (simp only: if_False)
  from listing_fetch_ok [OF assms(1) is_listing(3) this] show ?thesis .
qed

lemma as_pages_Inr: "as_pages v = Inr ps \<Longrightarrow> v = CPages ps"
  by (cases v) simp_all

lemma searchPages_ok:
  assumes "cache_ok s" and "searchPages w query s = Some (res, s')"
  shows "cache_ok s' \<and> (\<forall>ps. res = Inr ps \<longrightarrow> list_all (\<lambda>p. blocks p = []) ps)"
proof (cases "trim query = []")
  case True
  with assms show ?thesis by (auto simp: searchPages_def)
next
  case False
  with assms(2) have "rethrow (\<lambda>errorMsg. ''Failed to search pages: '' @ errorMsg)
      (await (cast as_pages (getFormattedDatabase w False ''Public'' s))
         (\<lambda>allPages s1. Some (Inr (filter (page_matches (toLowerCase query)) allPages), s1))) =
      Some (res, s')"
    unfolding searchPages_def by (simp only: if_False)
  from rethrow_Some [OF this] obtain r0 where
    m: "await (cast as_pages (getFormattedDatabase w False ''Public'' s))
         (\<lambda>allPages s1. Some (Inr (filter (page_matches (toLowerCase query)) allPages), s1)) =
       Some (r0, s')"
    and r: "\<forall>ps. res = Inr ps \<longrightarrow> r0 = Inr ps" by blast
  from await_Some [OF m] show ?thesis
  proof
    assume "\<exists>e. cast as_pages (getFormattedDatabase w False ''Public'' s) = Some (Inl e, s') \<and>
      r0 = Inl e"
    then obtain e where c: "cast as_pages (getFormattedDatabase w False ''Public'' s) =
      Some (Inl e, s')" and "r0 = Inl e" by blast
    from cast_Some [OF c] obtain r1 where
      "getFormattedDatabase w False ''Public'' s = Some (r1, s')" by auto
    from getFormattedDatabase_ok [OF assms(1) this] r \<open>r0 = Inl e\<close> show ?thesis by auto
  next
    assume "\<exists>a s1. cast as_pages (getFormattedDatabase w False ''Public'' s) = Some (Inr a, s1) \<and>
      Some (Inr (filter (page_matches (toLowerCase query)) a), s1) = Some (r0, s')"
    then obtain a where c: "cast as_pages (getFormattedDatabase w False ''Public'' s) =
      Some (Inr a, s')" and r0: "r0 = Inr (filter (page_matches (toLowerCase query)) a)" by auto
    from cast_Some [OF c] obtain v where
      db: "getFormattedDatabase w False ''Public'' s = Some (Inr v, s')" and "as_pages v = Inr a"
      by auto
    then have v: "v = CPages a" by (simp add: as_pages_Inr)
    from getFormattedDatabase_ok [OF assms(1) db] v have "cache_ok s'"
      and "list_all (\<lambda>p. blocks p = []) a" by simp_all
    with r r0 show ?thesis by (auto simp: list_all_iff)
  qed
qed

lemma getFormattedPage_ok:
  assumes ok: "cache_ok s"
    and ret: "getFormattedPage depth w pageId fetchBlocks s = Some (res, s')"
  shows "cache_ok s'"
proof -
  let ?key = "''formatted-page:'' @ pageId @ '':'' @ show_bool fetchBlocks"
  have "cache_ok s' \<and> good ?key res"
  proof (rule getFromCacheOrFetch_ok [OF ok _ ret [unfolded getFormattedPage_def]])
    fix r s1
    assume "rethrow (\<lambda>errorMsg. ''Failed to format the page: '' @ errorMsg)
        (await (cast as_page (getPage w pageId s))
           (\<lambda>page s1.
              await (if fetchBlocks then cast as_blocks (getBlocks depth w pageId s1)
                     else Some (Inr [], s1))
                (\<lambda>bs s2.
                   (case formatPage w (clock s2) page (Some bs) of
                      Inl e \<Rightarrow> Some (Inl e, s2)
                    | Inr fp \<Rightarrow> Some (Inr (CFormatted fp), s2))))) = Some (r, s1)"
    from rethrow_Some [OF this] obtain r0 where
      m: "await (cast as_page (getPage w pageId s))
           (\<lambda>page s1.
              await (if fetchBlocks then cast as_blocks (getBlocks depth w pageId s1)
                     else Some (Inr [], s1))
                (\<lambda>bs s2.
                   (case formatPage w (clock s2) page (Some bs) of
                      Inl e \<Rightarrow> Some (Inl e, s2)
                    | Inr fp \<Rightarrow> Some (Inr (CFormatted fp), s2)))) = Some (r0, s1)" by blast
    have "cache_ok s1"
    proof (rule await_ok [OF m])
      fix r1 s0 assume "cast as_page (getPage w pageId s) = Some (r1, s0)"
      from cast_Some [OF this] obtain r2 where "getPage w pageId s = Some (r2, s0)" by auto
      from getPage_ok [OF ok this] show "cache_ok s0" .
    next
      fix page s0
      assume c: "cast as_page (getPage w pageId s) = Some (Inr page, s0)"
        and rest: "await (if fetchBlocks then cast as_blocks (getBlocks depth w pageId s0)
                     else Some (Inr [], s0))
                (\<lambda>bs s2.
                   (case formatPage w (clock s2) page (Some bs) of
                      Inl e \<Rightarrow> Some (Inl e, s2)
                    | Inr fp \<Rightarrow> Some (Inr (CFormatted fp), s2))) = Some (r0, s1)"
      from cast_Some [OF c] obtain r2 where "getPage w pageId s = Some (r2, s0)" by auto
      from getPage_ok [OF ok this] have ok0: "cache_ok s0" .
      show "cache_ok s1"
      proof (rule await_ok [OF rest])
        fix r3 s2
        assume "(if fetchBlocks then cast as_blocks (getBlocks depth w pageId s0)
                 else Some (Inr [], s0)) = Some (r3, s2)"
        with ok0 show "cache_ok s2"
          by (auto split: if_splits dest!: cast_Some dest: getBlocks_ok)
      next
        fix bs s2
        assume b: "(if fetchBlocks then cast as_blocks (getBlocks depth w pageId s0)
                 else Some (Inr [], s0)) = Some (Inr bs, s2)"
          and f: "(case formatPage w (clock s2) page (Some bs) of
                      Inl e \<Rightarrow> Some (Inl e, s2)
                    | Inr fp \<Rightarrow> Some (Inr (CFormatted fp), s2)) = Some (r0, s1)"
        from b ok0 have "cache_ok s2"
          by (auto split: if_splits dest!: cast_Some dest: getBlocks_ok)
        with f show "cache_ok s1" by (auto split: sum.splits)
      qed
    qed
    then show "cache_ok s1 \<and> good ?key r"
      using good_not_listing [OF not_listing(3), of "pageId @ '':'' @ show_bool fetchBlocks" r]
      by simp
  qed
  then show ?thesis ..
qed

lemma await_cast_ok:
  assumes ret: "await (cast as (op s)) f = Some (r, s')"
    and op: "\<And>r0 s0. op s = Some (r0, s0) \<Longrightarrow> cache_ok s0"
    and rest: "\<And>a s0. cache_ok s0 \<Longrightarrow> f a s0 = Some (r, s') \<Longrightarrow> cache_ok s'"
  shows "cache_ok s'"
proof (rule await_ok [OF ret])
  fix r0 s0 assume "cast as (op s) = Some (r0, s0)"
  from cast_Some [OF this] op show "cache_ok s0" by auto
next
  fix a s0 assume c: "cast as (op s) = Some (Inr a, s0)" and f: "f a s0 = Some (r, s')"
  from cast_Some [OF c] op have "cache_ok s0" by auto
  from rest [OF this f] show "cache_ok s'" .
qed

lemma getPageBySlug_ok:
  assumes ok: "cache_ok s" and ret: "getPageBySlug depth w slugText s = Some (res, s')"
  shows "cache_ok s'"
proof (cases "database_id_unset w")
  case True
  with assms show ?thesis by (auto simp: getPageBySlug_def)
next
  case False
  let ?q = "\<lparr>database_id = the (env_NOTION_DATABASE_ID w), q_sorts = None,
             q_filter = Some (RichTextEquals ''slug'' slugText)\<rparr>"
  let ?fetch = "\<lambda>s0. rethrow (\<lambda>errorMsg. ''Failed to fetch the page by slug: '' @ errorMsg)
             (if database_id_unset w then Some (Inl (Error MSG_DATABASE_ID_UNSET), s0)
              else
                (let queryOptions = ?q;
                     s1 = sent (Query queryOptions) s0
                 in (case databases_query w queryOptions of
                       Inl e \<Rightarrow> Some (Inl e, s1)
                     | Inr [] \<Rightarrow> Some (Inr CNull, s1)
                     | Inr (first # rest) \<Rightarrow>
                         await (cast as_blocks (getBlocks depth w (page_id first) s1))
                           (\<lambda>bs s2.
                              await (cast as_page (getPage w (page_id first) s2))
                                (\<lambda>page s3.
                                   (case formatPage w (clock s3) page (Some bs) of
                                      Inl e \<Rightarrow> Some (Inl e, s3)
                                    | Inr fp \<Rightarrow> Some (Inr (CFormatted fp), s3)))))))"
  from ret False have call: "getFromCacheOrFetch (''page-by-slug:'' @ slugText) ?fetch
      DEFAULT_CACHE_CONFIG s = Some (res, s')"
    unfolding getPageBySlug_def by (simp only: if_False)
  have "cache_ok s' \<and> good (''page-by-slug:'' @ slugText) res"
  proof (rule getFromCacheOrFetch_ok [OF ok _ call])
    fix r s1
    assume "?fetch s = Some (r, s1)"
    from rethrow_Some [OF this] False obtain r0 where
      body: "(case databases_query w ?q of
                Inl e \<Rightarrow> Some (Inl e, sent (Query ?q) s)
              | Inr [] \<Rightarrow> Some (Inr CNull, sent (Query ?q) s)
              | Inr (first # rest) \<Rightarrow>
                  await (cast as_blocks (getBlocks depth w (page_id first) (sent (Query ?q) s)))
                    (\<lambda>bs s2.
                       await (cast as_page (getPage w (page_id first) s2))
                         (\<lambda>page s3.
                            (case formatPage w (clock s3) page (Some bs) of
                               Inl e \<Rightarrow> Some (Inl e, s3)
                             | Inr fp \<Rightarrow> Some (Inr (CFormatted fp), s3))))) = Some (r0, s1)"
      by (auto simp: Let_def)
    have "cache_ok s1"
    proof (cases "databases_query w ?q")
      case (Inl e)
      with body ok show ?thesis by auto
    next
      case (Inr rows)
      show ?thesis
      proof (cases rows)
        case Nil
        with body Inr ok show ?thesis by auto
      next
        case (Cons first rest)
        with body Inr have m:
          "await (cast as_blocks (getBlocks depth w (page_id first) (sent (Query ?q) s)))
             (\<lambda>bs s2.
                await (cast as_page (getPage w (page_id first) s2))
                  (\<lambda>page s3.
                     (case formatPage w (clock s3) page (Some bs) of
                        Inl e \<Rightarrow> Some (Inl e, s3)
                      | Inr fp \<Rightarrow> Some (Inr (CFormatted fp), s3)))) = Some (r0, s1)" by simp
        show ?thesis
        proof (rule await_cast_ok [of as_blocks "getBlocks depth w (page_id first)", OF m])
          fix r1 s0
          assume "getBlocks depth w (page_id first) (sent (Query ?q) s) = Some (r1, s0)"
          from getBlocks_ok [OF _ this] ok show "cache_ok s0" by simp
        next
          fix bs s0
          assume ok0: "cache_ok s0"
            and m2: "await (cast as_page (getPage w (page_id first) s0))
                  (\<lambda>page s3.
                     (case formatPage w (clock s3) page (Some bs) of
                        Inl e \<Rightarrow> Some (Inl e, s3)
                      | Inr fp \<Rightarrow> Some (Inr (CFormatted fp), s3))) = Some (r0, s1)"
          show "cache_ok s1"
          proof (rule await_cast_ok [of as_page "getPage w (page_id first)", OF m2])
            fix r1 s2 assume "getPage w (page_id first) s0 = Some (r1, s2)"
            from getPage_ok [OF ok0 this] show "cache_ok s2" .
          next
            fix page s2
            assume "cache_ok s2"
              and "(case formatPage w (clock s2) page (Some bs) of
                        Inl e \<Rightarrow> Some (Inl e, s2)
                      | Inr fp \<Rightarrow> Some (Inr (CFormatted fp), s2)) = Some (r0, s1)"
            then show "cache_ok s1" by (auto split: sum.splits)
          qed
        qed
      qed
    qed
    then show "cache_ok s1 \<and> good (''page-by-slug:'' @ slugText) r"
      using good_not_listing [OF not_listing(4), of slugText r] by simp
  qed
  then show ?thesis ..
qed

lemma getAllTags_ok:
  fixes s :: "'p cstate"
  assumes ok: "cache_ok s" and ret: "getAllTags w s = Some (res, s')"
  shows "cache_ok s'"
proof -
  have "cache_ok s' \<and> good ''all-tags'' res"
  proof (rule getFromCacheOrFetch_ok [OF ok _ ret [unfolded getAllTags_def]])
    fix r :: "error + 'p cached" and s1
    assume "rethrow (\<lambda>errorMsg. ''Failed to fetch all tags: '' @ errorMsg)
          (await (cast as_pages (getFormattedDatabase w True ''Public'' s))
             (\<lambda>pages s1.
                Some (Inr (CStrings
                  (sorted_names (concat (map (\<lambda>page. map tag_name (tags page)) pages)))), s1))) =
        Some (r, s1)"
    from rethrow_Some [OF this] obtain r0 :: "error + 'p cached" where
      m: "await (cast as_pages (getFormattedDatabase w True ''Public'' s))
             (\<lambda>pages s1.
                Some (Inr (CStrings
                  (sorted_names (concat (map (\<lambda>page. map tag_name (tags page)) pages)))), s1)) =
        Some (r0, s1)" by auto
    have "cache_ok s1"
    proof (rule await_cast_ok [of as_pages "getFormattedDatabase w True ''Public''", OF m])
      fix r1 s0 assume "getFormattedDatabase w True ''Public'' s = Some (r1, s0)"
      from getFormattedDatabase_ok [OF ok this] show "cache_ok s0" ..
    next
      fix a s0
      assume "cache_ok s0" and "Some (Inr (CStrings
          (sorted_names (concat (map (\<lambda>page. map tag_name (tags page)) a)))), s0) = Some (r0, s1)"
      then show "cache_ok s1" by simp
    qed
    then show "cache_ok s1 \<and> good ''all-tags'' r"
      using good_not_listing [OF not_listing(5), of r] by simp
  qed
  then show ?thesis ..
qed

lemma getAllCategories_ok:
  fixes s :: "'p cstate"
  assumes ok: "cache_ok s" and ret: "getAllCategories w s = Some (res, s')"
  shows "cache_ok s'"
proof -
  have "cache_ok s' \<and> good ''all-categories'' res"
  proof (rule getFromCacheOrFetch_ok [OF ok _ ret [unfolded getAllCategories_def]])
    fix r :: "error + 'p cached" and s1
    assume "rethrow (\<lambda>errorMsg. ''Failed to fetch all categories: '' @ errorMsg)
          (await (cast as_pages (getFormattedDatabase w True ''Public'' s))
             (\<lambda>pages s1.
                Some (Inr (CStrings
                  (sorted_names
                     (map (\<lambda>page. the (category page))
                        (filter (\<lambda>page. str_truthy (category page)) pages)))), s1))) =
        Some (r, s1)"
    from rethrow_Some [OF this] obtain r0 :: "error + 'p cached" where
      m: "await (cast as_pages (getFormattedDatabase w True ''Public'' s))
             (\<lambda>pages s1.
                Some (Inr (CStrings
                  (sorted_names
                     (map (\<lambda>page. the (category page))
                        (filter (\<lambda>page. str_truthy (category page)) pages)))), s1)) =
        Some (r0, s1)" by auto
    have "cache_ok s1"
    proof (rule await_cast_ok [of as_pages "getFormattedDatabase w True ''Public''", OF m])
      fix r1 s0 assume "getFormattedDatabase w True ''Public'' s = Some (r1, s0)"
      from getFormattedDatabase_ok [OF ok this] show "cache_ok s0" ..
    next
      fix a s0
      assume "cache_ok s0" and "Some (Inr (CStrings
                  (sorted_names
                     (map (\<lambda>page. the (category page))
                        (filter (\<lambda>page. str_truthy (category page)) a)))), s0) = Some (r0, s1)"
      then show "cache_ok s1" by simp
    qed
    then show "cache_ok s1 \<and> good ''all-categories'' r"
      using good_not_listing [OF not_listing(6), of r] by simp
  qed
  then show ?thesis ..
qed

lemma clearCache_ok: "cache_ok s \<Longrightarrow> cache_ok (clearCache keyPrefix s)"
  by (auto simp: cache_ok_def clearCache_def split: option.splits if_splits)

lemma settle_ok:
  assumes "cache_ok s" and "r \<in> set (background s)"
  shows "cache_ok (settle_refresh r (s\<lparr>background := remove1 r (background s)\<rparr>))"
proof -
  from assms have pending: "\<forall>v. listing_key (rkey r) \<longrightarrow> routcome r = Some (Inr v) \<longrightarrow> no_blocks v"
    by (auto simp: cache_ok_def)
  have rest: "set (remove1 r (background s)) \<subseteq> set (background s)"
    by (rule set_remove1_subset)
  from assms(1) pending rest show ?thesis
    by (auto simp: cache_ok_def settle_refresh_def split: option.splits sum.splits if_splits)
qed

lemma reachable_cache_ok: "reachable s \<Longrightarrow> cache_ok s"
proof (induction rule: reachable.induct)
  case (start t)
  show ?case by (simp add: cache_ok_def initial_def)
next
  case (tick s t)
  then show ?case by (simp add: cache_ok_def)
next
  case (settle s r)
  then show ?case by (simp add: settle_ok)
next
  case (clear s keyPrefix)
  then show ?case by (simp add: clearCache_ok)
next
  case (page s w pageId res s')
  then show ?case by (blast intro: getPage_ok)
next
  case (content s depth w blockId res s')
  then show ?case by (blast intro: getBlocks_ok)
next
  case (formatted s depth w pageId fetchBlocks res s')
  then show ?case by (blast intro: getFormattedPage_ok)
next
  case (database s w filterByStatus statusName res s')
  then show ?case by (blast dest: getFormattedDatabase_ok)
next
  case (by_slug s depth w slugText res s')
  then show ?case by (blast intro: getPageBySlug_ok)
next
  case (by_tag s w tagName res s')
  then show ?case by (blast dest: getPagesByTag_ok)
next
  case (all_tags s w res s')
  then show ?case by (blast intro: getAllTags_ok)
next
  case (by_category s w categoryName res s')
  then show ?case by (blast dest: getPagesByCategory_ok)
next
  case (all_categories s w res s')
  then show ?case by (blast intro: getAllCategories_ok)
next
  case (search s w query res' s')
  then show ?case by (blast dest: searchPages_ok)
qed


section \<open>Searching\<close>

lemma formatPage_raw:
  "formatPage (world_of dbid t') now (raw_page i t) None =
     Inr (if t = [] then (formatted_of i t)\<lparr>title := MSG_UNTITLED\<rparr> else formatted_of i t)"
  by (simp add: formatPage_def world_of_def raw_page_def formatted_of_def or_str_def or_else_def
      Let_def)

lemma query_pages_world:
  "query_pages (world_of (Some ''db'') ''new'') so fi s =
     Some (Inr (CPages [formatted_of ''p1'' ''new'']),
           sent (Query \<lparr>database_id = ''db'', q_sorts = so, q_filter = fi\<rparr>) s)"
proof -
  have 1: "\<not> database_id_unset (world_of (Some ''db'') ''new'')"
    by (simp add: database_id_unset_def world_of_def)
  have 2: "env_NOTION_DATABASE_ID (world_of (Some ''db'') ''new'') = Some ''db''"
    "databases_query (world_of (Some ''db'') ''new'') q = Inr [raw_page ''p1'' ''new'']" for q
    by (simp_all add: world_of_def)
  show ?thesis
    by (simp add: query_pages_def 1 2 formatPage_raw Let_def)
qed

lemma matches_new: "page_matches (toLowerCase ''new'') (formatted_of ''p1'' ''new'' :: unit FormattedPage)"
  "\<not> page_matches (toLowerCase ''new'') (formatted_of ''p1'' ''old'' :: unit FormattedPage)"
  "page_matches (toLowerCase ''old'') (formatted_of ''p1'' ''old'' :: unit FormattedPage)"
  by (simp_all add: page_matches_def toLowerCase_def to_lower_char_def formatted_of_def Let_def)

lemma trim_words: "trim ''new'' \<noteq> []" "trim ''old'' \<noteq> []"
  by (simp_all add: trim_def is_space_def)

text \<open>
  Claim C9. The claim asks that \<^verbatim>\<open>searchPages\<close> is never cached, and the comment in its
  body says so, but it reads the listing through \<^verbatim>\<open>getFormattedDatabase(false)\<close>, which
  goes through the cache. With a listing stored a second ago, when the only row was
  titled \<open>old\<close>, and a collection whose row is now titled \<open>new\<close>: the search for \<open>new\<close>
  finds nothing and the search for \<open>old\<close> finds the row as it was, in both cases without
  a request. On an empty cache the search stores the listing it fetched.
\<close>

theorem searchPages_served_from_cache:
  "searchPages (world_of (Some ''db'') ''new'') ''new'' stale_state = Some (Inr [], stale_state) \<and>
   searchPages (world_of (Some ''db'') ''new'') ''old'' stale_state =
     Some (Inr [formatted_of ''p1'' ''old''], stale_state) \<and>
   searchPages (world_of (Some ''db'') ''new'') ''new'' (initial 0) =
     Some (Inr [formatted_of ''p1'' ''new''],
           stored ''formatted-database:false:Public'' (CPages [formatted_of ''p1'' ''new'']) 0
             (sent (Query all_rows) (initial 0)))"
proof -
  let ?w = "world_of (Some ''db'') ''new''"
  have set: "\<not> database_id_unset ?w"
    by (simp add: database_id_unset_def world_of_def)
  have hit: "getFormattedDatabase ?w False ''Public'' stale_state =
      Some (Inr (CPages [formatted_of ''p1'' ''old'']), stale_state)"
    by (simp add: getFormattedDatabase_def set getFromCacheOrFetch_def stale_state_def stored_def
        initial_def DEFAULT_CACHE_CONFIG_def threshold_def Let_def)
  have miss: "getFormattedDatabase ?w False ''Public'' (initial 0) =
      Some (Inr (CPages [formatted_of ''p1'' ''new'']),
            stored ''formatted-database:false:Public'' (CPages [formatted_of ''p1'' ''new'']) 0
              (sent (Query all_rows) (initial 0)))"
    by (simp add: getFormattedDatabase_def set getFromCacheOrFetch_def query_pages_world
        rethrow_def stored_def initial_def sent_def all_rows_def Let_def)
  show ?thesis
    by (simp add: searchPages_def trim_words hit miss cast_def await_def rethrow_def matches_new)
qed

lemma searchPages_blank:
  "trim query = [] \<Longrightarrow> searchPages w query s = Some (Inr [], s)"
  by (simp add: searchPages_def)

lemma searchPages_filter:
  assumes "trim query \<noteq> []" and "searchPages w query s = Some (Inr ps, s')"
  shows "\<exists>allPages. getFormattedDatabase w False ''Public'' s = Some (Inr (CPages allPages), s') \<and>
           ps = filter (page_matches (toLowerCase query)) allPages"
proof -
  from assms have "rethrow (\<lambda>errorMsg. ''Failed to search pages: '' @ errorMsg)
      (await (cast as_pages (getFormattedDatabase w False ''Public'' s))
         (\<lambda>allPages s1. Some (Inr (filter (page_matches (toLowerCase query)) allPages), s1))) =
      Some (Inr ps, s')"
    unfolding searchPages_def by (simp only: if_False)
  from rethrow_Some [OF this] have
    m: "await (cast as_pages (getFormattedDatabase w False ''Public'' s))
         (\<lambda>allPages s1. Some (Inr (filter (page_matches (toLowerCase query)) allPages), s1)) =
       Some (Inr ps, s')" by auto
  from await_Some [OF m] obtain a where
    c: "cast as_pages (getFormattedDatabase w False ''Public'' s) = Some (Inr a, s')"
    and ps: "ps = filter (page_matches (toLowerCase query)) a" by auto
  from cast_Some [OF c] obtain v where
    "getFormattedDatabase w False ''Public'' s = Some (Inr v, s')" "as_pages v = Inr a" by auto
  with ps as_pages_Inr show ?thesis by blast
qed


section \<open>Listings\<close>

lemma no_blocks_pages: "no_blocks v \<Longrightarrow> \<exists>ps. v = CPages ps \<and> (\<forall>p \<in> set ps. blocks p = [])"
  by (cases v) (simp_all add: list_all_iff)

text \<open>
  Claim C10. In every state the module can reach, each page that
  \<^verbatim>\<open>getFormattedDatabase\<close>, \<^verbatim>\<open>getPagesByTag\<close>, \<^verbatim>\<open>getPagesByCategory\<close> or \<^verbatim>\<open>searchPages\<close>
  returns has an empty \<open>blocks\<close> sequence, whether the result was fetched or came from the
  cache: these operations shape their rows with \<^verbatim>\<open>formatPages\<close>, and \<^verbatim>\<open>formatPage\<close>
  without a block argument yields no blocks, while with one (as \<^verbatim>\<open>getFormattedPage\<close> and
  \<^verbatim>\<open>getPageBySlug\<close> call it) it attaches exactly the blocks given.
\<close>

theorem listings_without_blocks:
  fixes s :: "'p cstate"
  assumes "reachable s"
  shows "(getFormattedDatabase w filterByStatus statusName s = Some (Inr v, s') \<longrightarrow>
            (\<exists>ps. v = CPages ps \<and> (\<forall>p \<in> set ps. blocks p = []))) \<and>
         (getPagesByTag w tagName s = Some (Inr v, s') \<longrightarrow>
            (\<exists>ps. v = CPages ps \<and> (\<forall>p \<in> set ps. blocks p = []))) \<and>
         (getPagesByCategory w categoryName s = Some (Inr v, s') \<longrightarrow>
            (\<exists>ps. v = CPages ps \<and> (\<forall>p \<in> set ps. blocks p = []))) \<and>
         (searchPages w query s = Some (Inr found, s') \<longrightarrow> (\<forall>p \<in> set found. blocks p = [])) \<and>
         (\<forall>fp. formatPage w now page None = Inr fp \<longrightarrow> blocks fp = []) \<and>
         (\<forall>fp bs. formatPage w now page (Some bs) = Inr fp \<longrightarrow> blocks fp = bs)"
proof -
  from assms have ok: "cache_ok s" by (rule reachable_cache_ok)
  have db: "\<exists>ps. v = CPages ps \<and> (\<forall>p \<in> set ps. blocks p = [])"
    if "getFormattedDatabase w filterByStatus statusName s = Some (Inr v, s')"
    using getFormattedDatabase_ok [OF ok that] no_blocks_pages by blast
  have tg: "\<exists>ps. v = CPages ps \<and> (\<forall>p \<in> set ps. blocks p = [])"
    if "getPagesByTag w tagName s = Some (Inr v, s')"
    using getPagesByTag_ok [OF ok that] no_blocks_pages by blast
  have ct: "\<exists>ps. v = CPages ps \<and> (\<forall>p \<in> set ps. blocks p = [])"
    if "getPagesByCategory w categoryName s = Some (Inr v, s')"
    using getPagesByCategory_ok [OF ok that] no_blocks_pages by blast
  have sr: "\<forall>p \<in> set found. blocks p = []"
    if "searchPages w query s = Some (Inr found, s')"
    using searchPages_ok [OF ok that] by (simp add: list_all_iff)
  have fp: "blocks fp = []" if "formatPage w now page None = Inr fp" for fp
    using formatPage_blocks [OF that] by simp
  have fb: "blocks fp = bs" if "formatPage w now page (Some bs) = Inr fp" for fp bs
    using formatPage_blocks [OF that] by simp
  from db tg ct sr fp fb show ?thesis by blast
qed

lemma getFormattedDatabase_world:
  "getFormattedDatabase (world_of (Some ''db'') ''new'') True ''Public'' (initial 0) =
     Some (Inr (CPages [formatted_of ''p1'' ''new'']),
           stored ''formatted-database:true:Public'' (CPages [formatted_of ''p1'' ''new'']) 0
             (sent (Query public_rows) (initial 0)))"
proof -
  have set: "\<not> database_id_unset (world_of (Some ''db'') ''new'')"
    by (simp add: database_id_unset_def world_of_def)
  show ?thesis
    by (simp add: getFormattedDatabase_def set getFromCacheOrFetch_def query_pages_world
        rethrow_def stored_def initial_def sent_def public_rows_def Let_def)
qed

theorem listings_without_blocks_witness:
  "reachable (initial 0 :: unit cstate) \<and>
   getFormattedDatabase (world_of (Some ''db'') ''new'') True ''Public'' (initial 0) =
     Some (Inr (CPages [formatted_of ''p1'' ''new'']),
           stored ''formatted-database:true:Public'' (CPages [formatted_of ''p1'' ''new'']) 0
             (sent (Query public_rows) (initial 0))) \<and>
   (\<exists>ps. CPages [formatted_of ''p1'' ''new''] = CPages ps \<and>
         (\<forall>p \<in> set ps. blocks p = ([] :: unit block list)))"
  using listings_without_blocks
    [OF reachable.start [of 0], of "world_of (Some ''db'') ''new''" True "''Public''"
      "CPages [formatted_of ''p1'' ''new'']"
      "stored ''formatted-database:true:Public'' (CPages [formatted_of ''p1'' ''new'']) 0
             (sent (Query public_rows) (initial 0))"]
    getFormattedDatabase_world reachable.start [of 0]
  by simp


end
